theory Spec2Isabelle
  imports Complex_Main "HOL-Library.Word"
begin

unbundle bit_operations_syntax

section \<open>Data model\<close>

text \<open>
  The embedding follows \<^verbatim>\<open>src/ImageSubtract.cc\<close>. The pixel planes of a
  \<^verbatim>\<open>MaskedImage<ImageT>\<close> hold C floating-point numbers; here they are real numbers,
  so rounding and infinities are outside the model (a division by a zero variance and the
  square root of a negative variance have their HOL values, and the concrete inputs
  below have positive variances). A C \<^verbatim>\<open>double\<close> that the code tests for
  not-a-number, or sets to it, is a value of the type \<open>double\<close> below. The mask plane
  holds \<^verbatim>\<open>image::MaskPixel\<close>, an unsigned 16-bit integer.
\<close>

datatype double = Num real | NaN

fun isnan :: "double \<Rightarrow> bool" where
  "isnan NaN = True"
| "isnan (Num _) = False"

type_synonym MaskPixel = "16 word"

record Pixel =
  image_px :: real
  variance_px :: real
  mask_px :: MaskPixel

text \<open>
  A masked image: its dimensions and the pixel at column \<open>x\<close> of row \<open>y\<close>.
\<close>

record MaskedImage =
  getWidth :: nat
  getHeight :: nat
  pixel_at :: "nat \<Rightarrow> nat \<Rightarrow> Pixel"

text \<open>
  The pixels in the order of the statistics loops: row by row (\<open>y\<close> from 0 to the
  height), each row from \<^verbatim>\<open>row_begin(y)\<close> to \<^verbatim>\<open>row_end(y)\<close>.
\<close>

definition row_pixels :: "MaskedImage \<Rightarrow> nat \<Rightarrow> Pixel list" where
  "row_pixels img y = map (\<lambda>x. pixel_at img x y) [0..<getWidth img]"

definition all_pixels :: "MaskedImage \<Rightarrow> Pixel list" where
  "all_pixels img = concat (map (row_pixels img) [0..<getHeight img])"

section \<open>Statistics of a difference image\<close>

text \<open>
  The state of the two statistics loops is \<open>(xSum, x2Sum, nGoodPixels)\<close>. Both overloads
  of \<^verbatim>\<open>calculateMaskedImageStatistics\<close> have the same loop body and the same
  closing computation; they differ in the test that selects a pixel, which is the
  parameter \<open>good\<close> of \<open>accumulate\<close>. \<open>nGoodPixels\<close> is a C \<^verbatim>\<open>int\<close> of 32
  bits, held here as a word that is read as a signed number (\<open>sint\<close>):
  \<^verbatim>\<open>nGoodPixels += 1\<close> at \<open>2^31 - 1\<close> is a signed overflow, for which C defines no
  result and two's-complement hardware gives \<open>- 2^31\<close>, the value it has here.
\<close>

fun accumulate ::
  "(Pixel \<Rightarrow> bool) \<Rightarrow> real \<times> real \<times> 32 word \<Rightarrow> Pixel \<Rightarrow> real \<times> real \<times> 32 word" where
  "accumulate good (xSum, x2Sum, nGoodPixels) ptr =
     (if good ptr
      then (xSum + image_px ptr / sqrt (variance_px ptr),
            x2Sum + image_px ptr * image_px ptr / variance_px ptr,
            nGoodPixels + 1)
      else (xSum, x2Sum, nGoodPixels))"

text \<open>
  The closing computation. \<^verbatim>\<open>nGoodPixels / (nGoodPixels - 1)\<close> divides two
  \<^verbatim>\<open>int\<close>s, so it is the integer quotient (both operands are positive there, where
  C's truncation and \<open>div\<close> agree), converted to \<^verbatim>\<open>double\<close> afterwards.
\<close>

fun finish :: "real \<times> real \<times> int \<Rightarrow> int \<times> double \<times> double" where
  "finish (xSum, x2Sum, nGoodPixels) =
     (let mean = (if nGoodPixels > 0 then Num (xSum / of_int nGoodPixels) else NaN);
          variance =
            (if nGoodPixels > 1
             then (case mean of
                     Num m \<Rightarrow> Num ((x2Sum / of_int nGoodPixels - m * m)
                                    * of_int (nGoodPixels div (nGoodPixels - 1)))
                   | NaN \<Rightarrow> NaN)
             else NaN)
      in (nGoodPixels, mean, variance))"

text \<open>The overload with a mask argument: a pixel counts when \<^verbatim>\<open>(mask & badPixelMask) == 0\<close>.\<close>

definition calculateMaskedImageStatistics_mask ::
  "MaskedImage \<Rightarrow> MaskPixel \<Rightarrow> int \<times> double \<times> double" where
  "calculateMaskedImageStatistics_mask inputImage badPixelMask =
     (case foldl (accumulate (\<lambda>ptr. mask_px ptr AND badPixelMask = 0)) (0, 0, 0)
             (all_pixels inputImage) of
        (xSum, x2Sum, nGoodPixels) \<Rightarrow> finish (xSum, x2Sum, sint nGoodPixels))"

text \<open>The overload without a mask argument: a pixel counts when \<^verbatim>\<open>mask == 0\<close>.\<close>

definition calculateMaskedImageStatistics ::
  "MaskedImage \<Rightarrow> int \<times> double \<times> double" where
  "calculateMaskedImageStatistics inputImage =
     (case foldl (accumulate (\<lambda>ptr. mask_px ptr = 0)) (0, 0, 0) (all_pixels inputImage) of
        (xSum, x2Sum, nGoodPixels) \<Rightarrow> finish (xSum, x2Sum, sint nGoodPixels))"

text \<open>The three outputs \<^verbatim>\<open>nGoodPixels\<close>, \<^verbatim>\<open>mean\<close>, \<^verbatim>\<open>variance\<close>.\<close>

definition nGoodPixels_of :: "int \<times> double \<times> double \<Rightarrow> int" where
  "nGoodPixels_of r = fst r"

definition mean_of :: "int \<times> double \<times> double \<Rightarrow> double" where
  "mean_of r = fst (snd r)"

definition variance_of :: "int \<times> double \<times> double \<Rightarrow> double" where
  "variance_of r = snd (snd r)"

text \<open>A one-row image given by its pixels, for concrete inputs.\<close>

definition row_image :: "Pixel list \<Rightarrow> MaskedImage" where
  "row_image ps = \<lparr>getWidth = length ps, getHeight = 1, pixel_at = (\<lambda>x y. ps ! x)\<rparr>"

definition px :: "real \<Rightarrow> real \<Rightarrow> MaskPixel \<Rightarrow> Pixel" where
  "px v var m = \<lparr>image_px = v, variance_px = var, mask_px = m\<rparr>"


text \<open>
  The statistics of a list of pixels in closed form: their number, the mean of
  \<open>v / \<surd>var\<close>, and the variance with the factor that the closing computation applies
  (the integer quotient of \<open>n\<close> by \<open>n - 1\<close>: 2 for two pixels, 1 for more).
\<close>

definition statisticsOver :: "Pixel list \<Rightarrow> int \<times> double \<times> double" where
  "statisticsOver ps =
     (let n = int (length ps);
          xSum = (\<Sum>p\<leftarrow>ps. image_px p / sqrt (variance_px p));
          x2Sum = (\<Sum>p\<leftarrow>ps. image_px p * image_px p / variance_px p)
      in (n,
          if n > 0 then Num (xSum / of_int n) else NaN,
          if n > 1
          then Num ((x2Sum / of_int n - (xSum / of_int n) * (xSum / of_int n))
                    * (if n = 2 then 2 else 1))
          else NaN))"

text \<open>An image of \<open>w \<times> h\<close> pixels that are all equal.\<close>

definition uniform_image :: "nat \<Rightarrow> nat \<Rightarrow> Pixel \<Rightarrow> MaskedImage" where
  "uniform_image w h p = \<lparr>getWidth = w, getHeight = h, pixel_at = (\<lambda>x y. p)\<rparr>"

section \<open>Errors and kernels\<close>

text \<open>
  Every \<^verbatim>\<open>throw LSST_EXCEPT(exceptions::Exception, ...)\<close> of the source is a value
  of \<open>error\<close>: \<open>Exception\<close> carries the message, \<open>ExceptionFormat\<close> the
  \<^verbatim>\<open>boost::format\<close> template and the number formatted into it. The other
  constructors are the faults of the source that are not exceptions of its own: a read
  outside a GSL vector or matrix, an index outside a \<^verbatim>\<open>std::vector\<close>, the
  dereference of \<^verbatim>\<open>begin()\<close> of an empty list, a locator that has left its image,
  and a linear-combination kernel built from lists of different lengths.
\<close>

datatype error =
    Exception string
  | ExceptionFormat string real
  | GslIndexOutOfRange
  | VectorIndexOutOfRange
  | EmptyListDereference
  | LocatorOutOfImage
  | InvalidParameter

text \<open>
  What the code reads of a \<^verbatim>\<open>math::Kernel\<close>: its dimensions, its centre
  (\<^verbatim>\<open>getCtrX\<close>, \<^verbatim>\<open>getCtrY\<close>), and its weights.
\<close>

record Kernel =
  getWidthK :: nat
  getHeightK :: nat
  getCtrX :: nat
  getCtrY :: nat
  kernelPixel :: "nat \<Rightarrow> nat \<Rightarrow> real"

text \<open>
  Modelled from the spec: the class \<^verbatim>\<open>math::DeltaFunctionKernel\<close> of the image
  library is not among the sources. The spec reads its constructor
  \<^verbatim>\<open>DeltaFunctionKernel(width, height, PointI(col, row))\<close> as the kernel of that
  extent with "unit weight at (col,row) and zero elsewhere, anchor at (col,row)".
\<close>

definition DeltaFunctionKernel :: "nat \<Rightarrow> nat \<Rightarrow> nat \<times> nat \<Rightarrow> Kernel" where
  "DeltaFunctionKernel width height point =
     \<lparr>getWidthK = width, getHeightK = height,
      getCtrX = fst point, getCtrY = snd point,
      kernelPixel = (\<lambda>x y. if (x, y) = point then 1 else 0)\<rparr>"

text \<open>
  \<^verbatim>\<open>generateDeltaFunctionKernelSet\<close>. The arguments are \<^verbatim>\<open>unsigned int\<close>; the
  loops run over \<^verbatim>\<open>int\<close> counters up to \<^verbatim>\<open>static_cast<int>(width)\<close> and
  \<^verbatim>\<open>static_cast<int>(height)\<close>, the two's complement readings of the arguments.
  The list is built by \<^verbatim>\<open>push_back\<close> in the inner loop, row after row.
\<close>

definition generateDeltaFunctionKernelSet :: "32 word \<Rightarrow> 32 word \<Rightarrow> error + Kernel list" where
  "generateDeltaFunctionKernelSet width height =
     (if width < 1 \<or> height < 1
      then Inl (Exception ''nRows and nCols must be positive'')
      else
        let signedWidth = sint width;
            signedHeight = sint height
        in Inr (concat (map (\<lambda>row.
                  map (\<lambda>col. DeltaFunctionKernel (unat width) (unat height) (col, row))
                    [0..<nat signedWidth])
                  [0..<nat signedHeight])))"

definition anchor :: "Kernel \<Rightarrow> nat \<times> nat" where
  "anchor k = (getCtrX k, getCtrY k)"

section \<open>Convolution and subtraction\<close>

text \<open>
  The in-place arithmetic of \<^verbatim>\<open>MaskedImage\<close> belongs to the image library. On the
  intensity plane \<^verbatim>\<open>+=\<close> with a number adds it to every pixel, \<^verbatim>\<open>-=\<close> with an
  image subtracts pixel by pixel, and \<^verbatim>\<open>*=\<close> with a number multiplies every pixel.
  The other planes follow the library's propagation rules (the variances add under
  \<^verbatim>\<open>-=\<close> and scale with the square under \<^verbatim>\<open>*=\<close>, the masks are or-ed); the
  properties below are about the intensity plane only. The result keeps the dimensions
  of the left operand; what the library does for operands of different dimensions is
  outside the embedding.
\<close>

definition add_scalar :: "MaskedImage \<Rightarrow> real \<Rightarrow> MaskedImage" where
  "add_scalar img s =
     img\<lparr>pixel_at := (\<lambda>x y. (pixel_at img x y)\<lparr>image_px := image_px (pixel_at img x y) + s\<rparr>)\<rparr>"

definition subtract_image :: "MaskedImage \<Rightarrow> MaskedImage \<Rightarrow> MaskedImage" where
  "subtract_image img rhs =
     img\<lparr>pixel_at := (\<lambda>x y.
        \<lparr>image_px = image_px (pixel_at img x y) - image_px (pixel_at rhs x y),
         variance_px = variance_px (pixel_at img x y) + variance_px (pixel_at rhs x y),
         mask_px = mask_px (pixel_at img x y) OR mask_px (pixel_at rhs x y)\<rparr>)\<rparr>"

definition multiply_scalar :: "MaskedImage \<Rightarrow> real \<Rightarrow> MaskedImage" where
  "multiply_scalar img s =
     img\<lparr>pixel_at := (\<lambda>x y.
        (pixel_at img x y)\<lparr>image_px := image_px (pixel_at img x y) * s,
                            variance_px := variance_px (pixel_at img x y) * (s * s)\<rparr>)\<rparr>"

text \<open>
  \<^verbatim>\<open>addFunctionToImage\<close>: the second pair of loops visits every pixel
  \<open>(col, row)\<close> with \<open>row < numRows\<close> and \<open>col < numCols\<close> once and adds
  \<^verbatim>\<open>function(colPos, rowPos)\<close> to it, where \<open>colPos\<close> and \<open>rowPos\<close> are
  \<^verbatim>\<open>image::positionToIndex\<close> of \<open>col\<close> and \<open>row\<close> (a function of the image library, a
  parameter here). The first pair of loops has an empty body. The function is applied to
  the intensity plane (\<^verbatim>\<open>getImage()\<close>) of the masked image.
\<close>

definition addFunctionToImage ::
  "(nat \<Rightarrow> real) \<Rightarrow> MaskedImage \<Rightarrow> (real \<Rightarrow> real \<Rightarrow> real) \<Rightarrow> MaskedImage" where
  "addFunctionToImage positionToIndex img function =
     img\<lparr>pixel_at := (\<lambda>col row.
        if row < getHeight img \<and> col < getWidth img
        then (pixel_at img col row)\<lparr>image_px :=
                image_px (pixel_at img col row)
                  + function (positionToIndex col) (positionToIndex row)\<rparr>
        else pixel_at img col row)\<rparr>"

text \<open>
  The four overloads of \<^verbatim>\<open>convolveAndSubtract\<close>. \<^verbatim>\<open>math::convolve\<close> and
  \<^verbatim>\<open>math::convolveLinear\<close> are parameters: they give the pixels of the convolved
  image, which has the dimensions of \<^verbatim>\<open>imageToConvolve\<close>. \<open>getMaskPlane\<close> looks the
  bit of a mask plane up by its name.
\<close>

definition convolveAndSubtract_Kernel_scalar ::
  "(MaskedImage \<Rightarrow> 'k \<Rightarrow> bool \<Rightarrow> int \<Rightarrow> nat \<Rightarrow> nat \<Rightarrow> Pixel) \<Rightarrow> (string \<Rightarrow> int)
   \<Rightarrow> MaskedImage \<Rightarrow> MaskedImage \<Rightarrow> 'k \<Rightarrow> real \<Rightarrow> MaskedImage" where
  "convolveAndSubtract_Kernel_scalar convolve getMaskPlane
       imageToConvolve imageToNotConvolve convolutionKernel background =
     (let edgeMaskBit = getMaskPlane ''EDGE'';
          convolvedMaskedImage =
            \<lparr>getWidth = getWidth imageToConvolve, getHeight = getHeight imageToConvolve,
             pixel_at = convolve imageToConvolve convolutionKernel False edgeMaskBit\<rparr>;
          convolvedMaskedImage = add_scalar convolvedMaskedImage background;
          convolvedMaskedImage = subtract_image convolvedMaskedImage imageToNotConvolve;
          convolvedMaskedImage = multiply_scalar convolvedMaskedImage (- 1)
      in convolvedMaskedImage)"

definition convolveAndSubtract_Linear_scalar ::
  "(MaskedImage \<Rightarrow> 'l \<Rightarrow> int \<Rightarrow> nat \<Rightarrow> nat \<Rightarrow> Pixel) \<Rightarrow> (string \<Rightarrow> int)
   \<Rightarrow> MaskedImage \<Rightarrow> MaskedImage \<Rightarrow> 'l \<Rightarrow> real \<Rightarrow> MaskedImage" where
  "convolveAndSubtract_Linear_scalar convolveLinear getMaskPlane
       imageToConvolve imageToNotConvolve convolutionKernel background =
     (let edgeMaskBit = getMaskPlane ''EDGE'';
          convolvedMaskedImage =
            \<lparr>getWidth = getWidth imageToConvolve, getHeight = getHeight imageToConvolve,
             pixel_at = convolveLinear imageToConvolve convolutionKernel edgeMaskBit\<rparr>;
          convolvedMaskedImage = add_scalar convolvedMaskedImage background;
          convolvedMaskedImage = subtract_image convolvedMaskedImage imageToNotConvolve;
          convolvedMaskedImage = multiply_scalar convolvedMaskedImage (- 1)
      in convolvedMaskedImage)"

definition convolveAndSubtract_Kernel_function ::
  "(MaskedImage \<Rightarrow> 'k \<Rightarrow> bool \<Rightarrow> int \<Rightarrow> nat \<Rightarrow> nat \<Rightarrow> Pixel) \<Rightarrow> (string \<Rightarrow> int)
   \<Rightarrow> (nat \<Rightarrow> real)
   \<Rightarrow> MaskedImage \<Rightarrow> MaskedImage \<Rightarrow> 'k \<Rightarrow> (real \<Rightarrow> real \<Rightarrow> real) \<Rightarrow> MaskedImage" where
  "convolveAndSubtract_Kernel_function convolve getMaskPlane positionToIndex
       imageToConvolve imageToNotConvolve convolutionKernel backgroundFunction =
     (let edgeMaskBit = getMaskPlane ''EDGE'';
          convolvedMaskedImage =
            \<lparr>getWidth = getWidth imageToConvolve, getHeight = getHeight imageToConvolve,
             pixel_at = convolve imageToConvolve convolutionKernel False edgeMaskBit\<rparr>;
          convolvedMaskedImage =
            addFunctionToImage positionToIndex convolvedMaskedImage backgroundFunction;
          convolvedMaskedImage = subtract_image convolvedMaskedImage imageToNotConvolve;
          convolvedMaskedImage = multiply_scalar convolvedMaskedImage (- 1)
      in convolvedMaskedImage)"

definition convolveAndSubtract_Linear_function ::
  "(MaskedImage \<Rightarrow> 'l \<Rightarrow> int \<Rightarrow> nat \<Rightarrow> nat \<Rightarrow> Pixel) \<Rightarrow> (string \<Rightarrow> int)
   \<Rightarrow> (nat \<Rightarrow> real)
   \<Rightarrow> MaskedImage \<Rightarrow> MaskedImage \<Rightarrow> 'l \<Rightarrow> (real \<Rightarrow> real \<Rightarrow> real) \<Rightarrow> MaskedImage" where
  "convolveAndSubtract_Linear_function convolveLinear getMaskPlane positionToIndex
       imageToConvolve imageToNotConvolve convolutionKernel backgroundFunction =
     (let edgeMaskBit = getMaskPlane ''EDGE'';
          convolvedMaskedImage =
            \<lparr>getWidth = getWidth imageToConvolve, getHeight = getHeight imageToConvolve,
             pixel_at = convolveLinear imageToConvolve convolutionKernel edgeMaskBit\<rparr>;
          convolvedMaskedImage =
            addFunctionToImage positionToIndex convolvedMaskedImage backgroundFunction;
          convolvedMaskedImage = subtract_image convolvedMaskedImage imageToNotConvolve;
          convolvedMaskedImage = multiply_scalar convolvedMaskedImage (- 1)
      in convolvedMaskedImage)"

text \<open>The intensity of an image at a pixel.\<close>

definition intensity :: "MaskedImage \<Rightarrow> nat \<Rightarrow> nat \<Rightarrow> real" where
  "intensity img x y = image_px (pixel_at img x y)"

text \<open>Stand-ins for concrete runs: a convolution that doubles every intensity.\<close>

definition doubling_convolve :: "MaskedImage \<Rightarrow> Kernel \<Rightarrow> bool \<Rightarrow> int \<Rightarrow> nat \<Rightarrow> nat \<Rightarrow> Pixel" where
  "doubling_convolve img k doNormalize edgeBit x y =
     (pixel_at img x y)\<lparr>image_px := 2 * image_px (pixel_at img x y)\<rparr>"

definition doubling_convolveLinear ::
  "MaskedImage \<Rightarrow> Kernel list \<times> real list \<Rightarrow> int \<Rightarrow> nat \<Rightarrow> nat \<Rightarrow> Pixel" where
  "doubling_convolveLinear img k edgeBit x y =
     (pixel_at img x y)\<lparr>image_px := 2 * image_px (pixel_at img x y)\<rparr>"

definition edge_plane :: "string \<Rightarrow> int" where
  "edge_plane name = (if name = ''EDGE'' then 4 else - 1)"

section \<open>The kernel solver\<close>

subsection \<open>Locators and the accumulation into \<open>M\<close> and \<open>B\<close>\<close>

text \<open>
  An \<^verbatim>\<open>xy_locator\<close> is a position \<open>(x, y)\<close> in an image: \<^verbatim>\<open>xy_at(x, y)\<close> creates
  it, \<^verbatim>\<open>++loc.x()\<close> and \<^verbatim>\<open>++loc.y()\<close> move it one pixel right or down, and reading
  through it reads the pixel at its position. A read at a position outside the image is
  the fault \<open>LocatorOutOfImage\<close>.
\<close>

definition locate :: "MaskedImage \<Rightarrow> nat \<times> nat \<Rightarrow> error + Pixel" where
  "locate img loc =
     (if fst loc < getWidth img \<and> snd loc < getHeight img
      then Inr (pixel_at img (fst loc) (snd loc))
      else Inl LocatorOutOfImage)"

text \<open>
  The GSL matrix \<open>M\<close> and vector \<open>B\<close> are functions of their indices;
  \<^verbatim>\<open>*gsl_matrix_ptr(M, i, j) += v\<close> and \<^verbatim>\<open>*gsl_vector_ptr(B, i) += v\<close> are:
\<close>

definition matrix_add :: "(nat \<Rightarrow> nat \<Rightarrow> real) \<Rightarrow> nat \<Rightarrow> nat \<Rightarrow> real \<Rightarrow> (nat \<Rightarrow> nat \<Rightarrow> real)" where
  "matrix_add M i j v = M(i := (M i)(j := M i j + v))"

definition vector_add :: "(nat \<Rightarrow> real) \<Rightarrow> nat \<Rightarrow> real \<Rightarrow> (nat \<Rightarrow> real)" where
  "vector_add B i v = B(i := B i + v)"

text \<open>
  The body of the pixel loop, once the pixel values are read: \<open>ncImage\<close> is the
  intensity of \<^verbatim>\<open>imageToNotConvolve\<close>, \<open>iVariance\<close> is
  \<^verbatim>\<open>1.0 / varianceLocator.variance()\<close>, and \<open>cdImage i\<close> is the intensity of the
  \<open>i\<close>-th convolved image. The loop over \<open>kidxj\<close> starts at \<open>kidxi\<close>.
\<close>

definition accumulateRow ::
  "nat \<Rightarrow> real \<Rightarrow> (nat \<Rightarrow> real) \<Rightarrow> nat \<Rightarrow> (nat \<Rightarrow> nat \<Rightarrow> real) \<Rightarrow> (nat \<Rightarrow> nat \<Rightarrow> real)" where
  "accumulateRow nKernelParameters iVariance cdImage kidxi M =
     foldl (\<lambda>M kidxj. matrix_add M kidxi kidxj (cdImage kidxi * cdImage kidxj * iVariance))
       M [kidxi..<nKernelParameters]"

definition accumulatePixel ::
  "nat \<Rightarrow> real \<Rightarrow> real \<Rightarrow> (nat \<Rightarrow> real)
   \<Rightarrow> (nat \<Rightarrow> nat \<Rightarrow> real) \<times> (nat \<Rightarrow> real) \<Rightarrow> (nat \<Rightarrow> nat \<Rightarrow> real) \<times> (nat \<Rightarrow> real)" where
  "accumulatePixel nKernelParameters ncImage iVariance cdImage MB =
     (let nParameters = nKernelParameters + 1;
          (M1, B1) =
            foldl (\<lambda>(M, B) kidxi.
                     (matrix_add (accumulateRow nKernelParameters iVariance cdImage kidxi M)
                        kidxi (nParameters - 1) (cdImage kidxi * iVariance),
                      vector_add B kidxi (ncImage * cdImage kidxi * iVariance)))
              MB [0..<nKernelParameters]
      in (matrix_add M1 (nParameters - 1) (nParameters - 1) (1 * iVariance),
          vector_add B1 (nParameters - 1) (ncImage * iVariance)))"

text \<open>
  All locators of the scan (one for each input image and one for each convolved image)
  are created at \<open>(startCol, startRow)\<close> and are stepped together, so the state of the
  scan holds one position for all of them, beside \<open>M\<close> and \<open>B\<close>.
\<close>

type_synonym scan_state = "(nat \<Rightarrow> nat \<Rightarrow> real) \<times> (nat \<Rightarrow> real) \<times> (nat \<times> nat)"

text \<open>Reading the \<open>i\<close>-th convolved image at the position; \<open>None\<close> when a read faults.\<close>

definition readConvolved :: "MaskedImage list \<Rightarrow> nat \<times> nat \<Rightarrow> (nat \<Rightarrow> real) option" where
  "readConvolved convolvedImageList loc =
     (if list_all (\<lambda>c. fst loc < getWidth c \<and> snd loc < getHeight c) convolvedImageList
      then Some (\<lambda>i. image_px (pixel_at (convolvedImageList ! i) (fst loc) (snd loc)))
      else None)"

text \<open>
  One pass of the body of the column loop: read the pixels at the locators, accumulate,
  and step every locator in \<open>x\<close>.
\<close>

definition scanPixel ::
  "MaskedImage \<Rightarrow> MaskedImage \<Rightarrow> MaskedImage list \<Rightarrow> scan_state \<Rightarrow> error + scan_state" where
  "scanPixel imageToNotConvolve varianceImage convolvedImageList s =
     (case s of (M, B, loc) \<Rightarrow>
        (case locate imageToNotConvolve loc of
           Inl e \<Rightarrow> Inl e
         | Inr nc \<Rightarrow>
             (case locate varianceImage loc of
                Inl e \<Rightarrow> Inl e
              | Inr var \<Rightarrow>
                  (case readConvolved convolvedImageList loc of
                     None \<Rightarrow> Inl LocatorOutOfImage
                   | Some cdImage \<Rightarrow>
                       (case accumulatePixel (length convolvedImageList) (image_px nc)
                               (1 / variance_px var) cdImage (M, B) of
                          (M', B') \<Rightarrow> Inr (M', B', (fst loc + 1, snd loc)))))))"

text \<open>
  The column loop \<^verbatim>\<open>for (col = startCol; col < endCol; ++col)\<close> runs its body
  \<open>endCol - startCol\<close> times (not at all when \<open>endCol \<le> startCol\<close>); the body does not
  use \<open>col\<close>. The row loop runs the column loop and then steps every locator in \<open>y\<close>;
  it does not move the locators back in \<open>x\<close>.
\<close>

primrec scanCols ::
  "nat \<Rightarrow> MaskedImage \<Rightarrow> MaskedImage \<Rightarrow> MaskedImage list \<Rightarrow> scan_state \<Rightarrow> error + scan_state" where
  "scanCols 0 imageToNotConvolve varianceImage convolvedImageList s = Inr s"
| "scanCols (Suc k) imageToNotConvolve varianceImage convolvedImageList s =
     (case scanPixel imageToNotConvolve varianceImage convolvedImageList s of
        Inl e \<Rightarrow> Inl e
      | Inr s' \<Rightarrow> scanCols k imageToNotConvolve varianceImage convolvedImageList s')"

primrec scanRows ::
  "nat \<Rightarrow> nat \<Rightarrow> MaskedImage \<Rightarrow> MaskedImage \<Rightarrow> MaskedImage list \<Rightarrow> scan_state
   \<Rightarrow> error + scan_state" where
  "scanRows 0 nCols imageToNotConvolve varianceImage convolvedImageList s = Inr s"
| "scanRows (Suc k) nCols imageToNotConvolve varianceImage convolvedImageList s =
     (case scanCols nCols imageToNotConvolve varianceImage convolvedImageList s of
        Inl e \<Rightarrow> Inl e
      | Inr (M, B, loc) \<Rightarrow>
          scanRows k nCols imageToNotConvolve varianceImage convolvedImageList
            (M, B, (fst loc, snd loc + 1)))"

subsection \<open>The accumulation window\<close>

text \<open>
  \<open>startCol\<close>, \<open>startRow\<close>, \<open>endCol\<close>, \<open>endRow\<close> are \<^verbatim>\<open>unsigned int\<close>, computed from
  the first basis kernel (\<^verbatim>\<open>kiter = kernelInBasisList.begin()\<close>) and the first convolved
  image; the arithmetic is that of 32-bit words.
\<close>

record Window =
  startCol :: "32 word"
  startRow :: "32 word"
  endCol :: "32 word"
  endRow :: "32 word"

definition accumulationWindow :: "Kernel \<Rightarrow> MaskedImage \<Rightarrow> Window" where
  "accumulationWindow kiter citer =
     \<lparr>startCol = of_nat (getCtrX kiter),
      startRow = of_nat (getCtrY kiter),
      endCol = of_nat (getWidth citer) - (of_nat (getWidthK kiter) - of_nat (getCtrX kiter)) + 1,
      endRow = of_nat (getHeight citer) - (of_nat (getHeightK kiter) - of_nat (getCtrY kiter)) + 1\<rparr>"

text \<open>The values that the loop counter takes in \<^verbatim>\<open>for (i = start; i < end; ++i)\<close>.\<close>

definition loopIndices :: "32 word \<Rightarrow> 32 word \<Rightarrow> nat list" where
  "loopIndices start stop = [unat start..<unat stop]"

text \<open>The scan of the window, from zeroed \<open>M\<close> and \<open>B\<close>.\<close>

definition scanWindow ::
  "Window \<Rightarrow> MaskedImage \<Rightarrow> MaskedImage \<Rightarrow> MaskedImage list \<Rightarrow> error + scan_state" where
  "scanWindow w imageToNotConvolve varianceImage convolvedImageList =
     scanRows (length (loopIndices (startRow w) (endRow w)))
       (length (loopIndices (startCol w) (endCol w)))
       imageToNotConvolve varianceImage convolvedImageList
       ((\<lambda>i j. 0), (\<lambda>i. 0), (unat (startCol w), unat (startRow w)))"

text \<open>
  "Fill in rest of M": for \<open>kidxi < nParameters\<close> and \<open>kidxi < kidxj < nParameters\<close>,
  \<^verbatim>\<open>gsl_matrix_set(M, kidxj, kidxi, gsl_matrix_get(M, kidxi, kidxj))\<close>.
\<close>

definition fillLowerTriangle :: "nat \<Rightarrow> (nat \<Rightarrow> nat \<Rightarrow> real) \<Rightarrow> (nat \<Rightarrow> nat \<Rightarrow> real)" where
  "fillLowerTriangle nParameters M =
     foldl (\<lambda>M kidxi.
              foldl (\<lambda>M kidxj. M(kidxj := (M kidxj)(kidxi := M kidxi kidxj)))
                M [kidxi + 1..<nParameters])
       M [0..<nParameters]"

subsection \<open>From the solution to the output kernels\<close>

text \<open>
  The policy: the named options that the functions read with \<^verbatim>\<open>getInt\<close> and
  \<^verbatim>\<open>getDouble\<close>. The three options read with \<^verbatim>\<open>getDouble\<close> are C doubles,
  which the selection of footprints multiplies and compares; their type is the parameter
  \<open>'d\<close> of the policy (see \<open>Arithmetic\<close> below).
\<close>

record 'd Policy =
  footprintDiffimNpixMin :: int
  footprintDiffimGrow :: int
  minimumCleanFootprints :: int
  footprintDetectionThreshold :: 'd
  detectionThresholdScaling :: 'd
  minimumDetectionThreshold :: 'd
  kernelCols :: int
  kernelRows :: int

text \<open>
  A \<^verbatim>\<open>math::LinearCombinationKernel\<close>: the basis and one coefficient for each of its
  elements.
\<close>

record LinearCombinationKernel =
  kernelList :: "Kernel list"
  kernelParameters :: "real list"

text \<open>
  Modelled from the spec: the constructor of \<^verbatim>\<open>math::LinearCombinationKernel\<close>
  belongs to the image library and is not among the sources. The spec's data model has
  "a linear combination of basis kernels with one scalar coefficient per basis element";
  a construction from lists of different lengths is the fault \<open>InvalidParameter\<close>.
\<close>

definition newLinearCombinationKernel :: "Kernel list \<Rightarrow> real list \<Rightarrow> error + LinearCombinationKernel" where
  "newLinearCombinationKernel basis coefficients =
     (if length basis = length coefficients
      then Inr \<lparr>kernelList = basis, kernelParameters = coefficients\<rparr>
      else Inl InvalidParameter)"

text \<open>
  \<^verbatim>\<open>gsl_vector_get\<close> and \<^verbatim>\<open>gsl_matrix_get\<close> on a vector of \<open>n\<close> entries and a
  square matrix of \<open>n\<close> rows: an index outside is the fault \<open>GslIndexOutOfRange\<close>.
\<close>

definition gsl_vector_get :: "nat \<Rightarrow> (nat \<Rightarrow> double) \<Rightarrow> nat \<Rightarrow> error + double" where
  "gsl_vector_get n v i = (if i < n then Inr (v i) else Inl GslIndexOutOfRange)"

definition gsl_matrix_get :: "nat \<Rightarrow> (nat \<Rightarrow> nat \<Rightarrow> double) \<Rightarrow> nat \<Rightarrow> nat \<Rightarrow> error + double" where
  "gsl_matrix_get n m i j =
     (if i < n \<and> j < n then Inr (m i j) else Inl GslIndexOutOfRange)"

text \<open>
  The state of the two translation loops is \<open>(idx, kValues, kErrValues)\<close>. The body
  checks \<open>X[idx]\<close> and \<open>Cov[idx][idx]\<close> and stores into the two vectors; a store at an
  index outside a \<^verbatim>\<open>std::vector\<close> is the fault \<open>VectorIndexOutOfRange\<close>.
\<close>

type_synonym translate_state = "nat \<times> real list \<times> real list"

definition translateEntry ::
  "nat \<Rightarrow> (nat \<Rightarrow> double) \<Rightarrow> (nat \<Rightarrow> nat \<Rightarrow> double) \<Rightarrow> translate_state \<Rightarrow> error + translate_state" where
  "translateEntry nParameters X Cov s =
     (case s of (idx, kValues, kErrValues) \<Rightarrow>
        (case gsl_vector_get nParameters X idx of
           Inl e \<Rightarrow> Inl e
         | Inr NaN \<Rightarrow> Inl (Exception ''Unable to determine kernel solution (nan)'')
         | Inr (Num x) \<Rightarrow>
             (case gsl_matrix_get nParameters Cov idx idx of
                Inl e \<Rightarrow> Inl e
              | Inr NaN \<Rightarrow> Inl (Exception ''Unable to determine kernel uncertainty (nan)'')
              | Inr (Num c) \<Rightarrow>
                  if c < 0
                  then Inl (ExceptionFormat
                         ''Unable to determine kernel uncertainty, negative variance (%.3e)'' c)
                  else if idx < length kValues \<and> idx < length kErrValues
                  then Inr (idx + 1, kValues[idx := x], kErrValues[idx := sqrt c])
                  else Inl VectorIndexOutOfRange)))"

text \<open>
  \<^verbatim>\<open>for (col = 0; col < kCols; col++, idx++)\<close> runs the body \<open>kCols\<close> times, inside
  \<^verbatim>\<open>for (row = 0, idx = 0; row < kRows; row++)\<close>; the body uses \<open>idx\<close> only.
\<close>

primrec translateCols ::
  "nat \<Rightarrow> nat \<Rightarrow> (nat \<Rightarrow> double) \<Rightarrow> (nat \<Rightarrow> nat \<Rightarrow> double) \<Rightarrow> translate_state
   \<Rightarrow> error + translate_state" where
  "translateCols 0 nParameters X Cov s = Inr s"
| "translateCols (Suc k) nParameters X Cov s =
     (case translateEntry nParameters X Cov s of
        Inl e \<Rightarrow> Inl e
      | Inr s' \<Rightarrow> translateCols k nParameters X Cov s')"

primrec translateRows ::
  "nat \<Rightarrow> nat \<Rightarrow> nat \<Rightarrow> (nat \<Rightarrow> double) \<Rightarrow> (nat \<Rightarrow> nat \<Rightarrow> double) \<Rightarrow> translate_state
   \<Rightarrow> error + translate_state" where
  "translateRows 0 kCols nParameters X Cov s = Inr s"
| "translateRows (Suc k) kCols nParameters X Cov s =
     (case translateCols kCols nParameters X Cov s of
        Inl e \<Rightarrow> Inl e
      | Inr s' \<Rightarrow> translateRows k kCols nParameters X Cov s')"

record FitResult =
  kernelPtr :: LinearCombinationKernel
  kernelErrorPtr :: LinearCombinationKernel
  background :: double
  backgroundError :: real

text \<open>
  "Translate from GSL vectors into LSST classes": \<open>kCols\<close> and \<open>kRows\<close> are the policy's
  integers as \<^verbatim>\<open>unsigned int\<close>, the two vectors have \<open>kCols * kRows\<close> entries (a
  product of 32-bit words), the kernels are built after the loops, and the background
  entry is checked last.
\<close>

definition translateSolution ::
  "nat \<Rightarrow> (nat \<Rightarrow> double) \<Rightarrow> (nat \<Rightarrow> nat \<Rightarrow> double) \<Rightarrow> 'd Policy \<Rightarrow> Kernel list \<Rightarrow> error + FitResult" where
  "translateSolution nParameters X Cov policy kernelInBasisList =
     (let kCols = (of_int (kernelCols policy) :: 32 word);
          kRows = (of_int (kernelRows policy) :: 32 word);
          kValues = replicate (unat (kCols * kRows)) 0;
          kErrValues = replicate (unat (kCols * kRows)) 0
      in case translateRows (unat kRows) (unat kCols) nParameters X Cov (0, kValues, kErrValues) of
           Inl e \<Rightarrow> Inl e
         | Inr (idx, kValues, kErrValues) \<Rightarrow>
             (case newLinearCombinationKernel kernelInBasisList kValues of
                Inl e \<Rightarrow> Inl e
              | Inr newKernel \<Rightarrow>
                  (case newLinearCombinationKernel kernelInBasisList kErrValues of
                     Inl e \<Rightarrow> Inl e
                   | Inr newKernelError \<Rightarrow>
                       (case gsl_matrix_get nParameters Cov (nParameters - 1) (nParameters - 1) of
                          Inl e \<Rightarrow> Inl e
                        | Inr NaN \<Rightarrow>
                            Inl (Exception ''Unable to determine kernel uncertainty (nan)'')
                        | Inr (Num c) \<Rightarrow>
                            if c < 0
                            then Inl (ExceptionFormat
                                   ''Unable to determine kernel uncertainty, negative variance (%.3e)'' c)
                            else Inr \<lparr>kernelPtr = newKernel, kernelErrorPtr = newKernelError,
                                      background = X (nParameters - 1),
                                      backgroundError = sqrt c\<rparr>))))"

subsection \<open>The solver\<close>

text \<open>
  \<^verbatim>\<open>computePsfMatchingKernelForFootprint\<close>. Three things come from outside the
  sources and are parameters:
  \<^item> \<open>convolve\<close>, the pixels of \<^verbatim>\<open>math::convolve\<close> of an image with a kernel (the
    result has the dimensions of \<^verbatim>\<open>imageToConvolve\<close>);
  \<^item> \<open>svdSolve\<close>, the GSL steps from \<^verbatim>\<open>gsl_matrix_memcpy (A, M)\<close> to
    \<^verbatim>\<open>gsl_vector_div (X, D)\<close>, which compute the vector \<open>X\<close> from \<open>M\<close> and \<open>B\<close>;
  \<^item> \<open>Cov\<close>, the content of the block that \<^verbatim>\<open>gsl_matrix_alloc\<close> returned for
    \<^verbatim>\<open>Cov\<close>: the function stores nothing into it (the call of
    \<^verbatim>\<open>gsl_multifit_linear_svd\<close>, which has \<^verbatim>\<open>Cov\<close> as an output, is commented
    out, and the steps taken from it in its place leave \<^verbatim>\<open>Cov\<close> out).
  An empty basis makes \<^verbatim>\<open>*kiter\<close> the dereference of \<^verbatim>\<open>begin()\<close> of an empty list.
\<close>

definition convolvedImage :: "(MaskedImage \<Rightarrow> Kernel \<Rightarrow> nat \<Rightarrow> nat \<Rightarrow> Pixel) \<Rightarrow> MaskedImage \<Rightarrow> Kernel \<Rightarrow> MaskedImage" where
  "convolvedImage convolve imageToConvolve k =
     \<lparr>getWidth = getWidth imageToConvolve, getHeight = getHeight imageToConvolve,
      pixel_at = convolve imageToConvolve k\<rparr>"

definition solverWindow :: "Kernel list \<Rightarrow> MaskedImage list \<Rightarrow> error + Window" where
  "solverWindow kernelInBasisList convolvedImageList =
     (case (kernelInBasisList, convolvedImageList) of
        (kiter # _, citer # _) \<Rightarrow> Inr (accumulationWindow kiter citer)
      | _ \<Rightarrow> Inl EmptyListDereference)"

definition computePsfMatchingKernelForFootprint ::
  "(MaskedImage \<Rightarrow> Kernel \<Rightarrow> nat \<Rightarrow> nat \<Rightarrow> Pixel)
   \<Rightarrow> (nat \<Rightarrow> (nat \<Rightarrow> nat \<Rightarrow> real) \<Rightarrow> (nat \<Rightarrow> real) \<Rightarrow> nat \<Rightarrow> double)
   \<Rightarrow> (nat \<Rightarrow> nat \<Rightarrow> double)
   \<Rightarrow> MaskedImage \<Rightarrow> MaskedImage \<Rightarrow> MaskedImage \<Rightarrow> Kernel list \<Rightarrow> 'd Policy
   \<Rightarrow> error + FitResult" where
  "computePsfMatchingKernelForFootprint convolve svdSolve Cov
       imageToConvolve imageToNotConvolve varianceImage kernelInBasisList policy =
     (let nKernelParameters = length kernelInBasisList;
          nBackgroundParameters = 1;
          nParameters = nKernelParameters + nBackgroundParameters;
          convolvedImageList = map (convolvedImage convolve imageToConvolve) kernelInBasisList
      in case solverWindow kernelInBasisList convolvedImageList of
           Inl e \<Rightarrow> Inl e
         | Inr w \<Rightarrow>
             (case scanWindow w imageToNotConvolve varianceImage convolvedImageList of
                Inl e \<Rightarrow> Inl e
              | Inr (M, B, loc) \<Rightarrow>
                  translateSolution nParameters
                    (svdSolve nParameters (fillLowerTriangle nParameters M) B)
                    Cov policy kernelInBasisList))"

subsection \<open>Concrete inputs\<close>

text \<open>
  An image given by the rows of its intensities, with one variance for all pixels and
  mask 0; and a policy that asks for a \<open>cols \<times> rows\<close> output kernel.
\<close>

definition grid_image :: "real list list \<Rightarrow> real \<Rightarrow> MaskedImage" where
  "grid_image rows var =
     \<lparr>getWidth = length (hd rows), getHeight = length rows,
      pixel_at = (\<lambda>x y. px (rows ! y ! x) var 0)\<rparr>"

definition flat_image :: "nat \<Rightarrow> nat \<Rightarrow> MaskedImage" where
  "flat_image w h = \<lparr>getWidth = w, getHeight = h, pixel_at = (\<lambda>x y. px 1 1 0)\<rparr>"

definition plain_kernel :: "nat \<Rightarrow> nat \<Rightarrow> nat \<Rightarrow> nat \<Rightarrow> Kernel" where
  "plain_kernel w h cx cy =
     \<lparr>getWidthK = w, getHeightK = h, getCtrX = cx, getCtrY = cy, kernelPixel = (\<lambda>x y. 1)\<rparr>"

definition kernel_policy :: "int \<Rightarrow> int \<Rightarrow> real Policy" where
  "kernel_policy cols rows =
     \<lparr>footprintDiffimNpixMin = 1, footprintDiffimGrow = 0, minimumCleanFootprints = 1,
      footprintDetectionThreshold = 1, detectionThresholdScaling = 1 / 2,
      minimumDetectionThreshold = 1 / 4, kernelCols = cols, kernelRows = rows\<rparr>"

text \<open>
  A sum "over the valid accumulation window", as the spec has it for the entries of
  \<open>M\<close> and \<open>B\<close>: a quantity \<open>f x y\<close> summed over the pixels \<open>(x, y)\<close> whose column
  and row are loop indices of the window.
\<close>

definition windowSum :: "Window \<Rightarrow> (nat \<Rightarrow> nat \<Rightarrow> real) \<Rightarrow> real" where
  "windowSum w f =
     (\<Sum>y\<leftarrow>loopIndices (startRow w) (endRow w).
        \<Sum>x\<leftarrow>loopIndices (startCol w) (endCol w). f x y)"

text \<open>
  The contribution of one pixel to \<open>M\<close> and \<open>B\<close>, with \<open>n\<close> basis kernels, the weight
  \<open>w\<close>, the intensity \<open>nc\<close> of \<^verbatim>\<open>imageToNotConvolve\<close> and the intensities \<open>cd i\<close> of
  the convolved images: the terms of the spec's accumulation.
\<close>

definition pixelTermM :: "nat \<Rightarrow> real \<Rightarrow> (nat \<Rightarrow> real) \<Rightarrow> nat \<Rightarrow> nat \<Rightarrow> real" where
  "pixelTermM n w cd i j =
     (if i < n \<and> i \<le> j \<and> j < n then cd i * cd j * w
      else if i < n \<and> j = n then cd i * w
      else if i = n \<and> j = n then w
      else 0)"

definition pixelTermB :: "nat \<Rightarrow> real \<Rightarrow> real \<Rightarrow> (nat \<Rightarrow> real) \<Rightarrow> nat \<Rightarrow> real" where
  "pixelTermB n nc w cd i =
     (if i < n then nc * cd i * w else if i = n then nc * w else 0)"

text \<open>The same terms for the pixel at the position \<open>(x, y)\<close> of the images.\<close>

definition termM :: "MaskedImage \<Rightarrow> MaskedImage list \<Rightarrow> nat \<Rightarrow> nat \<Rightarrow> nat \<Rightarrow> nat \<Rightarrow> real" where
  "termM varianceImage convolvedImageList x y i j =
     pixelTermM (length convolvedImageList) (1 / variance_px (pixel_at varianceImage x y))
       (\<lambda>i. image_px (pixel_at (convolvedImageList ! i) x y)) i j"

definition termB ::
  "MaskedImage \<Rightarrow> MaskedImage \<Rightarrow> MaskedImage list \<Rightarrow> nat \<Rightarrow> nat \<Rightarrow> nat \<Rightarrow> real" where
  "termB imageToNotConvolve varianceImage convolvedImageList x y i =
     pixelTermB (length convolvedImageList) (image_px (pixel_at imageToNotConvolve x y))
       (1 / variance_px (pixel_at varianceImage x y))
       (\<lambda>i. image_px (pixel_at (convolvedImageList ! i) x y)) i"

subsection \<open>Faults and fit errors\<close>

text \<open>
  The errors that are faults of an access or of a construction, as opposed to the
  exceptions that the solver throws itself.
\<close>

fun isFault :: "error \<Rightarrow> bool" where
  "isFault (Exception _) = False"
| "isFault (ExceptionFormat _ _) = False"
| "isFault GslIndexOutOfRange = True"
| "isFault VectorIndexOutOfRange = True"
| "isFault EmptyListDereference = True"
| "isFault LocatorOutOfImage = True"
| "isFault InvalidParameter = True"

text \<open>
  A diagonal covariance entry passes the solver's checks when it is a number that is not
  negative; \<open>covarianceError\<close> is the exception thrown for an entry that fails them.
\<close>

fun covarianceOk :: "double \<Rightarrow> bool" where
  "covarianceOk NaN = False"
| "covarianceOk (Num c) = (\<not> c < 0)"

fun covarianceError :: "double \<Rightarrow> error" where
  "covarianceError NaN = Exception ''Unable to determine kernel uncertainty (nan)''"
| "covarianceError (Num c) =
     ExceptionFormat ''Unable to determine kernel uncertainty, negative variance (%.3e)'' c"

fun num :: "double \<Rightarrow> real" where
  "num (Num c) = c"
| "num NaN = 0"

text \<open>
  \<open>kernelCols * kernelRows\<close> of the policy, both read as \<^verbatim>\<open>unsigned int\<close>: the number
  of passes of the translation loops.
\<close>

definition outputKernelSize :: "'d Policy \<Rightarrow> nat" where
  "outputKernelSize policy =
     unat (of_int (kernelRows policy) :: 32 word) * unat (of_int (kernelCols policy) :: 32 word)"

text \<open>
  The number of entries of \<^verbatim>\<open>kValues\<close> and of \<^verbatim>\<open>kErrValues\<close>: the product
  \<^verbatim>\<open>kCols*kRows\<close> of two \<^verbatim>\<open>unsigned int\<close>s.
\<close>

definition vectorSize :: "'d Policy \<Rightarrow> nat" where
  "vectorSize policy =
     unat ((of_int (kernelCols policy) :: 32 word) * (of_int (kernelRows policy) :: 32 word))"

text \<open>
  What an exception tells about the covariance value that raised it, whatever its
  message: an exception without an argument for a not-a-number, and an exception with
  the value formatted into it for a negative number.
\<close>

fun fitErrorFor :: "double \<Rightarrow> error \<Rightarrow> bool" where
  "fitErrorFor NaN (Exception msg) = True"
| "fitErrorFor (Num c) (ExceptionFormat msg v) = (c < 0 \<and> v = c)"
| "fitErrorFor v e = False"

text \<open>
  Concrete solutions and covariance blocks: every solution entry 1; every covariance
  entry 4, but for one diagonal entry.
\<close>

definition ones :: "nat \<Rightarrow> double" where
  "ones i = Num 1"

definition fours_but :: "nat \<Rightarrow> double \<Rightarrow> nat \<Rightarrow> nat \<Rightarrow> double" where
  "fours_but k d i j = (if i = k \<and> j = k then d else Num 4)"

text \<open>
  A stand-in for the GSL steps in concrete runs: it returns \<open>B\<close>, the solution of
  \<open>M x = B\<close> when \<open>M\<close> is the identity.
\<close>

definition identity_solve :: "nat \<Rightarrow> (nat \<Rightarrow> nat \<Rightarrow> real) \<Rightarrow> (nat \<Rightarrow> real) \<Rightarrow> nat \<Rightarrow> double" where
  "identity_solve n M B i = Num (B i)"

text \<open>A stand-in for the convolution in concrete runs: every pixel of the result is 1.\<close>

definition flat_convolve :: "MaskedImage \<Rightarrow> Kernel \<Rightarrow> nat \<Rightarrow> nat \<Rightarrow> Pixel" where
  "flat_convolve img k x y = px 1 1 0"

section \<open>Selection of footprints\<close>

text \<open>
  A footprint as the selection reads it: its number of pixels and its bounding box
  (corner and extent).
\<close>

record Footprint =
  getNpix :: int
  getBBox :: "int \<times> int \<times> int \<times> int"

text \<open>
  The detection threshold, its scaling and its floor are C \<^verbatim>\<open>double\<close>s. A product of
  doubles is rounded, underflows to 0 and stays at an infinity, and a comparison with a
  not-a-number is false, so the doubles are not taken to be real numbers here: their type
  \<open>'d\<close> and the two operations that the selection applies to them are parameters,
  \<open>multiply\<close> for \<^verbatim>\<open>*=\<close> and \<open>greaterThan\<close> for \<^verbatim>\<open>>\<close>.
\<close>

record 'd Arithmetic =
  multiply :: "'d \<Rightarrow> 'd \<Rightarrow> 'd"
  greaterThan :: "'d \<Rightarrow> 'd \<Rightarrow> bool"

text \<open>
  What the selection calls outside the sources, as parameters:
  \<^item> \<open>detect\<close>: the footprints of \<^verbatim>\<open>DetectionSet\<close> on an image at a threshold;
  \<^item> \<open>growFootprint\<close>: the footprint grown by a margin;
  \<^item> \<open>getBits\<close>: the mask bits that \<^verbatim>\<open>FindSetBits\<close> finds set in an image's mask
    within a footprint (\<^verbatim>\<open>reset\<close>, \<^verbatim>\<open>apply\<close>, \<^verbatim>\<open>getBits\<close>);
  \<^item> \<open>subImage\<close>: the construction of the sub-image of an image at a bounding box, which
    throws when the box does not fit into the image.
\<close>

record 'd Detection =
  detect :: "MaskedImage \<Rightarrow> 'd \<Rightarrow> Footprint list"
  growFootprint :: "Footprint \<Rightarrow> 32 word \<Rightarrow> Footprint"
  getBits :: "MaskedImage \<Rightarrow> Footprint \<Rightarrow> MaskPixel"
  subImage :: "MaskedImage \<Rightarrow> int \<times> int \<times> int \<times> int \<Rightarrow> error + MaskedImage"

text \<open>
  The \<^verbatim>\<open>try\<close> block builds the two sub-images one after the other; an exception of
  either construction is caught.
\<close>

definition extractBoth ::
  "'d Detection \<Rightarrow> MaskedImage \<Rightarrow> MaskedImage \<Rightarrow> int \<times> int \<times> int \<times> int
   \<Rightarrow> error + MaskedImage \<times> MaskedImage" where
  "extractBoth ext imageToConvolve imageToNotConvolve fpBBox =
     (case subImage ext imageToConvolve fpBBox of
        Inl e \<Rightarrow> Inl e
      | Inr subImageToConvolve \<Rightarrow>
          (case subImage ext imageToNotConvolve fpBBox of
             Inl e \<Rightarrow> Inl e
           | Inr subImageToNotConvolve \<Rightarrow> Inr (subImageToConvolve, subImageToNotConvolve)))"

text \<open>
  The body of the loop over \<open>footprintListIn\<close>; the state is
  \<open>(footprintListOut, nCleanFootprints)\<close>, and every \<^verbatim>\<open>continue\<close> leaves it as it
  is. The pixel count is compared as \<^verbatim>\<open>unsigned int\<close>. \<open>nCleanFootprints\<close> is a C
  \<^verbatim>\<open>int\<close> of 32 bits, held as a word that is read as a signed number, as
  \<open>nGoodPixels\<close> above.
\<close>

definition checkFootprint ::
  "'d Detection \<Rightarrow> MaskedImage \<Rightarrow> MaskedImage \<Rightarrow> 'd Policy
   \<Rightarrow> Footprint list \<times> 32 word \<Rightarrow> Footprint \<Rightarrow> Footprint list \<times> 32 word" where
  "checkFootprint ext imageToConvolve imageToNotConvolve policy s i =
     (case s of (footprintListOut, nCleanFootprints) \<Rightarrow>
        if (of_int (getNpix i) :: 32 word) < of_int (footprintDiffimNpixMin policy) then s
        else
          let fpGrow = growFootprint ext i (of_int (footprintDiffimGrow policy)) in
          if getBits ext imageToConvolve fpGrow > 0 then s
          else if getBits ext imageToNotConvolve fpGrow > 0 then s
          else
            (case extractBoth ext imageToConvolve imageToNotConvolve (getBBox fpGrow) of
               Inl e \<Rightarrow> s
             | Inr subImages \<Rightarrow> (footprintListOut @ [fpGrow], nCleanFootprints + 1)))"

text \<open>
  One pass of the body of the \<^verbatim>\<open>while\<close> loop at a threshold: both lists are cleared,
  the footprints are detected on \<^verbatim>\<open>imageToConvolve\<close>, and the count starts from 0.
\<close>

definition detectionPass ::
  "'d Detection \<Rightarrow> MaskedImage \<Rightarrow> MaskedImage \<Rightarrow> 'd Policy \<Rightarrow> 'd
   \<Rightarrow> Footprint list \<times> 32 word" where
  "detectionPass ext imageToConvolve imageToNotConvolve policy threshold =
     foldl (checkFootprint ext imageToConvolve imageToNotConvolve policy) ([], 0)
       (detect ext imageToConvolve threshold)"

text \<open>
  The \<^verbatim>\<open>while\<close> loop. Its state is the count, the threshold (the local variable
  \<^verbatim>\<open>footprintDetectionThreshold\<close>, which starts from the policy's option of that
  name) and the output list; a loop that never ends is the value \<open>None\<close>.
\<close>

partial_function (option) selectionLoop ::
  "'d Arithmetic \<Rightarrow> 'd Detection \<Rightarrow> MaskedImage \<Rightarrow> MaskedImage \<Rightarrow> 'd Policy
   \<Rightarrow> 32 word \<Rightarrow> 'd \<Rightarrow> Footprint list \<Rightarrow> Footprint list option" where
  "selectionLoop arith ext imageToConvolve imageToNotConvolve policy
       nCleanFootprints threshold footprintListOut =
     (if sint nCleanFootprints < minimumCleanFootprints policy
         \<and> greaterThan arith threshold (minimumDetectionThreshold policy)
      then
        (case detectionPass ext imageToConvolve imageToNotConvolve policy
                threshold of
           (footprintListOut', nCleanFootprints') \<Rightarrow>
             selectionLoop arith ext imageToConvolve imageToNotConvolve policy
               nCleanFootprints'
               (multiply arith threshold (detectionThresholdScaling policy))
               footprintListOut')
      else Some footprintListOut)"

definition getCollectionOfFootprintsForPsfMatching ::
  "'d Arithmetic \<Rightarrow> 'd Detection \<Rightarrow> MaskedImage \<Rightarrow> MaskedImage \<Rightarrow> 'd Policy
   \<Rightarrow> Footprint list option" where
  "getCollectionOfFootprintsForPsfMatching arith ext imageToConvolve imageToNotConvolve policy =
     selectionLoop arith ext imageToConvolve imageToNotConvolve policy
       0 (footprintDetectionThreshold policy) []"

subsection \<open>The passes in closed form\<close>

text \<open>
  The quantities in which the result of the selection is stated. A detected footprint is
  accepted when it has the asked number of pixels, no mask bit is set within the grown
  footprint in either image, and both sub-images at its grown bounding box can be
  extracted; the regions accepted at a threshold are the grown footprints of the accepted
  ones among all that are detected there, in the order of detection.
\<close>

definition isAccepted ::
  "'d Detection \<Rightarrow> MaskedImage \<Rightarrow> MaskedImage \<Rightarrow> 'd Policy \<Rightarrow> Footprint \<Rightarrow> bool" where
  "isAccepted ext imageToConvolve imageToNotConvolve policy i =
     (let fpGrow = growFootprint ext i (of_int (footprintDiffimGrow policy))
      in (of_int (footprintDiffimNpixMin policy) :: 32 word) \<le> of_int (getNpix i)
         \<and> getBits ext imageToConvolve fpGrow = 0
         \<and> getBits ext imageToNotConvolve fpGrow = 0
         \<and> (case extractBoth ext imageToConvolve imageToNotConvolve (getBBox fpGrow) of
               Inl e \<Rightarrow> False
             | Inr subImages \<Rightarrow> True))"

definition acceptedRegions ::
  "'d Detection \<Rightarrow> MaskedImage \<Rightarrow> MaskedImage \<Rightarrow> 'd Policy \<Rightarrow> 'd \<Rightarrow> Footprint list" where
  "acceptedRegions ext imageToConvolve imageToNotConvolve policy threshold =
     map (\<lambda>i. growFootprint ext i (of_int (footprintDiffimGrow policy)))
       (filter (isAccepted ext imageToConvolve imageToNotConvolve policy)
          (detect ext imageToConvolve threshold))"

text \<open>
  The threshold after \<open>k\<close> passes: the policy's threshold multiplied \<open>k\<close> times by the
  scaling, one product after the other.
\<close>

primrec thresholdAfter :: "'d Arithmetic \<Rightarrow> 'd Policy \<Rightarrow> nat \<Rightarrow> 'd" where
  "thresholdAfter arith policy 0 = footprintDetectionThreshold policy"
| "thresholdAfter arith policy (Suc k) =
     multiply arith (thresholdAfter arith policy k) (detectionThresholdScaling policy)"

text \<open>
  The output list after \<open>k\<close> passes: empty before the first pass, and then the regions
  accepted in the last pass, which ran at the threshold after \<open>k - 1\<close> passes.
\<close>

fun listAfter ::
  "'d Arithmetic \<Rightarrow> 'd Detection \<Rightarrow> MaskedImage \<Rightarrow> MaskedImage \<Rightarrow> 'd Policy \<Rightarrow> nat
   \<Rightarrow> Footprint list" where
  "listAfter arith ext imageToConvolve imageToNotConvolve policy 0 = []"
| "listAfter arith ext imageToConvolve imageToNotConvolve policy (Suc k) =
     acceptedRegions ext imageToConvolve imageToNotConvolve policy
       (thresholdAfter arith policy k)"

text \<open>
  The test of the \<^verbatim>\<open>while\<close> loop after \<open>k\<close> passes: fewer regions than
  \<open>minimumCleanFootprints\<close> were accepted in the last pass (their number as the 32-bit
  counter has it), and the threshold is above the floor.
\<close>

definition continuesAfter ::
  "'d Arithmetic \<Rightarrow> 'd Detection \<Rightarrow> MaskedImage \<Rightarrow> MaskedImage \<Rightarrow> 'd Policy \<Rightarrow> nat
   \<Rightarrow> bool" where
  "continuesAfter arith ext imageToConvolve imageToNotConvolve policy k =
     (sint (of_nat (length (listAfter arith ext imageToConvolve imageToNotConvolve policy k))
              :: 32 word)
        < minimumCleanFootprints policy
      \<and> greaterThan arith (thresholdAfter arith policy k) (minimumDetectionThreshold policy))"

subsection \<open>Concrete collaborators\<close>

text \<open>
  The product and the order of the real numbers. The arithmetic of binary64 agrees with
  them wherever the product is a binary64 number; this is so for the thresholds of the
  runs below, whose thresholds, scalings and floors are among 0, 1, \<open>1/2\<close> and \<open>1/4\<close>.
\<close>

definition exact_arithmetic :: "real Arithmetic" where
  "exact_arithmetic = \<lparr>multiply = (\<lambda>a b. a * b), greaterThan = (\<lambda>a b. a > b)\<rparr>"

text \<open>
  A detector that finds one footprint of 9 pixels, whose box starts at the column \<open>x0\<close>,
  at thresholds up to \<open>limit\<close> and none above, a margin that leaves footprints as they
  are, masks with no bit set, and a sub-image construction that throws for boxes that
  start left of the image.
\<close>

definition one_source :: "real \<Rightarrow> int \<Rightarrow> real Detection" where
  "one_source limit x0 =
     \<lparr>detect = (\<lambda>img threshold.
         if threshold \<le> limit then [\<lparr>getNpix = 9, getBBox = (x0, 3, 3, 3)\<rparr>] else []),
      growFootprint = (\<lambda>fp margin. fp),
      getBits = (\<lambda>img fp. 0),
      subImage = (\<lambda>img box.
         if fst box < 0 then Inl (Exception ''Box does not fit in the image'') else Inr img)\<rparr>"

text \<open>
  A detector that finds two footprints at every threshold, the first with its box
  starting left of the image and the second inside it.
\<close>

definition two_sources :: "real Detection" where
  "two_sources =
     \<lparr>detect = (\<lambda>img threshold.
         [\<lparr>getNpix = 9, getBBox = (- 1, 3, 3, 3)\<rparr>, \<lparr>getNpix = 9, getBBox = (4, 3, 3, 3)\<rparr>]),
      growFootprint = (\<lambda>fp margin. fp),
      getBits = (\<lambda>img fp. 0),
      subImage = (\<lambda>img box.
         if fst box < 0 then Inl (Exception ''Box does not fit in the image'') else Inr img)\<rparr>"

definition no_source :: "real Detection" where
  "no_source =
     \<lparr>detect = (\<lambda>img threshold. []),
      growFootprint = (\<lambda>fp margin. fp),
      getBits = (\<lambda>img fp. 0),
      subImage = (\<lambda>img box. Inr img)\<rparr>"

definition selection_policy :: "int \<Rightarrow> real \<Rightarrow> real \<Rightarrow> real \<Rightarrow> real Policy" where
  "selection_policy minClean threshold scaling lowest =
     \<lparr>footprintDiffimNpixMin = 5, footprintDiffimGrow = 0, minimumCleanFootprints = minClean,
      footprintDetectionThreshold = threshold, detectionThresholdScaling = scaling,
      minimumDetectionThreshold = lowest, kernelCols = 1, kernelRows = 1\<rparr>"

section \<open>Properties of the statistics\<close>

lemma foldl_accumulate:
  "foldl (accumulate good) (a, b, n) ps =
     (a + (\<Sum>p\<leftarrow>filter good ps. image_px p / sqrt (variance_px p)),
      b + (\<Sum>p\<leftarrow>filter good ps. image_px p * image_px p / variance_px p),
      n + of_nat (length (filter good ps)))"
  by (induction ps arbitrary: a b n) (simp_all add: algebra_simps)

lemma sint_of_count:
  assumes "k < 2 ^ 31"
  shows "sint (of_nat k :: 32 word) = int k"
proof -
  have "int k < int (2 ^ 31)"
    using assms by (simp only: of_nat_less_iff)
  then have up: "int k < 2 ^ (LENGTH(32) - Suc 0)"
    by simp
  have "- (2 ^ (LENGTH(32) - Suc 0)) \<le> (0::int)"
    by simp
  also have "0 \<le> int k" by simp
  finally have lo: "- (2 ^ (LENGTH(32) - Suc 0)) \<le> int k" .
  have "sint (of_nat k :: 32 word) = signed_take_bit (LENGTH(32) - Suc 0) (int k)"
    by (simp add: sint_uint signed_take_bit_eq_iff_take_bit_eq unsigned_of_nat flip: take_bit_of_nat)
  also have "\<dots> = int k"
    using lo up by (rule signed_take_bit_int_eq_self)
  finally show ?thesis .
qed

lemma length_all_pixels: "length (all_pixels img) = getWidth img * getHeight img"
proof -
  have "\<And>ys. length (concat (map (row_pixels img) ys)) = getWidth img * length ys"
  proof -
    fix ys show "length (concat (map (row_pixels img) ys)) = getWidth img * length ys"
      by (induction ys) (simp_all add: row_pixels_def)
  qed
  then show ?thesis by (simp add: all_pixels_def)
qed

lemma pixel_in_all_pixels:
  "x < getWidth img \<Longrightarrow> y < getHeight img \<Longrightarrow> pixel_at img x y \<in> set (all_pixels img)"
  by (auto simp: all_pixels_def row_pixels_def intro!: bexI [of _ y] image_eqI [of _ _ x])

lemma all_pixels_are_pixels:
  "p \<in> set (all_pixels img) \<Longrightarrow> \<exists>x y. p = pixel_at img x y"
  by (auto simp: all_pixels_def row_pixels_def)

lemma integer_quotient: "1 < n \<Longrightarrow> n div (n - 1) = (if n = 2 then 2 else (1::int))"
proof (cases "n = 2")
  case True
  then show ?thesis by simp
next
  case False
  assume "1 < n"
  with False have "n - 1 \<le> n" "n < 2 * (n - 1)" by simp_all
  then have "n div (n - 1) = 1"
    by (intro int_div_pos_eq [of _ _ 1 1]) simp_all
  with False show ?thesis by simp
qed

lemma finish_mean:
  "mean_of (finish (xSum, x2Sum, n)) = (if n > 0 then Num (xSum / of_int n) else NaN)"
  by (simp add: mean_of_def Let_def)

lemma finish_variance:
  "variance_of (finish (xSum, x2Sum, n)) =
     (if n > 1
      then Num ((x2Sum / of_int n - (xSum / of_int n) * (xSum / of_int n))
                * (if n = 2 then 2 else 1))
      else NaN)"
  by (simp add: variance_of_def Let_def integer_quotient)

text \<open>
  What the loop and the closing computation return for the pixels that the test
  selects: their statistics, when there are fewer than \<open>2^31\<close> of them.
\<close>

lemma statistics_of_selected:
  assumes "length (filter good ps) < 2 ^ 31"
  shows "(case foldl (accumulate good) (0, 0, 0) ps of
            (xSum, x2Sum, nGoodPixels) \<Rightarrow> finish (xSum, x2Sum, sint nGoodPixels))
         = statisticsOver (filter good ps)"
proof -
  let ?n = "int (length (filter good ps))"
  have "1 < ?n \<Longrightarrow> of_int (?n div (?n - 1)) = (if ?n = 2 then 2 else (1::real))"
    by (simp only: integer_quotient) simp
  then show ?thesis
    by (simp add: foldl_accumulate sint_of_count [OF assms] statisticsOver_def Let_def)
qed

lemma statistics_mask:
  "length (filter (\<lambda>p. mask_px p AND m = 0) (all_pixels img)) < 2 ^ 31 \<Longrightarrow>
   calculateMaskedImageStatistics_mask img m
     = statisticsOver (filter (\<lambda>p. mask_px p AND m = 0) (all_pixels img))"
  unfolding calculateMaskedImageStatistics_mask_def by (rule statistics_of_selected)

lemma statistics_nomask:
  "length (filter (\<lambda>p. mask_px p = 0) (all_pixels img)) < 2 ^ 31 \<Longrightarrow>
   calculateMaskedImageStatistics img
     = statisticsOver (filter (\<lambda>p. mask_px p = 0) (all_pixels img))"
  unfolding calculateMaskedImageStatistics_def by (rule statistics_of_selected)

text \<open>
  C10, amended. For an image of fewer than \<open>2^31\<close> pixels: the call with an explicit
  \<open>badPixelMask\<close> of 0 returns the statistics over all pixels of the image (count, mean
  and variance), and its count is \<open>width * height\<close>; the overload without a mask
  argument returns the statistics over the pixels whose mask is exactly 0; and when some
  pixel has a nonzero mask, the count of the overload without a mask argument is smaller
  and the two results differ.
\<close>

theorem statistics_mask_zero_counts_all:
  assumes "getWidth img * getHeight img < 2 ^ 31"
  shows "calculateMaskedImageStatistics_mask img 0 = statisticsOver (all_pixels img)
   \<and> calculateMaskedImageStatistics img
       = statisticsOver (filter (\<lambda>p. mask_px p = 0) (all_pixels img))
   \<and> nGoodPixels_of (calculateMaskedImageStatistics_mask img 0)
       = int (getWidth img * getHeight img)
   \<and> nGoodPixels_of (calculateMaskedImageStatistics img)
       = int (length (filter (\<lambda>p. mask_px p = 0) (all_pixels img)))
   \<and> ((\<exists>x < getWidth img. \<exists>y < getHeight img. mask_px (pixel_at img x y) \<noteq> 0)
        \<longrightarrow> nGoodPixels_of (calculateMaskedImageStatistics img)
              < nGoodPixels_of (calculateMaskedImageStatistics_mask img 0)
          \<and> calculateMaskedImageStatistics img \<noteq> calculateMaskedImageStatistics_mask img 0)"
proof -
  let ?zero = "filter (\<lambda>p. mask_px p = 0) (all_pixels img)"
  have small: "length (all_pixels img) < 2 ^ 31"
    using assms by (simp only: length_all_pixels)
  have "length ?zero \<le> length (all_pixels img)" by simp
  then have small0: "length ?zero < 2 ^ 31" using small by (rule le_less_trans)
  have a: "calculateMaskedImageStatistics_mask img 0 = statisticsOver (all_pixels img)"
    using small by (simp add: statistics_mask)
  have b: "calculateMaskedImageStatistics img = statisticsOver ?zero"
    using small0 by (rule statistics_nomask)
  have c: "nGoodPixels_of (calculateMaskedImageStatistics_mask img 0)
             = int (getWidth img * getHeight img)"
    unfolding a by (simp add: nGoodPixels_of_def statisticsOver_def Let_def length_all_pixels)
  have d: "nGoodPixels_of (calculateMaskedImageStatistics img) = int (length ?zero)"
    unfolding b by (simp add: nGoodPixels_of_def statisticsOver_def Let_def)
  have less: "nGoodPixels_of (calculateMaskedImageStatistics img)
                < nGoodPixels_of (calculateMaskedImageStatistics_mask img 0)"
    if "x < getWidth img" "y < getHeight img" "mask_px (pixel_at img x y) \<noteq> 0" for x y
  proof -
    have "length ?zero < length (all_pixels img)"
      using pixel_in_all_pixels [OF that(1,2)] that(3) by (rule length_filter_less)
    then have "int (length ?zero) < int (getWidth img * getHeight img)"
      by (simp only: length_all_pixels of_nat_less_iff)
    then show ?thesis by (simp only: c d)
  qed
  have neq: "calculateMaskedImageStatistics img \<noteq> calculateMaskedImageStatistics_mask img 0"
    if "x < getWidth img" "y < getHeight img" "mask_px (pixel_at img x y) \<noteq> 0" for x y
    using less [OF that] by auto
  show ?thesis
    using a b c d less neq by blast
qed

text \<open>
  On the two pixels with intensities 1 and 5, variance 1 and masks 0 and 4: the call with
  mask 0 returns the count 2, the mean 3 and the variance \<open>(26 / 2 - 9) * 2 = 8\<close> of
  both pixels; the overload without a mask returns the count 1, the mean 1 and no
  variance, those of the first pixel alone.
\<close>

theorem statistics_mask_zero_counts_all_witness:
  "calculateMaskedImageStatistics_mask (row_image [px 1 1 0, px 5 1 4]) 0 = (2, Num 3, Num 8)
   \<and> calculateMaskedImageStatistics (row_image [px 1 1 0, px 5 1 4]) = (1, Num 1, NaN)
   \<and> calculateMaskedImageStatistics (row_image [px 1 1 0, px 5 1 4])
       \<noteq> calculateMaskedImageStatistics_mask (row_image [px 1 1 0, px 5 1 4]) 0"
proof -
  let ?img = "row_image [px 1 1 0, px 5 1 4]"
  have small: "getWidth ?img * getHeight ?img < 2 ^ 31"
    by (simp add: row_image_def)
  have ex: "\<exists>x < getWidth ?img. \<exists>y < getHeight ?img. mask_px (pixel_at ?img x y) \<noteq> 0"
    by (rule exI [of _ 1]) (simp add: row_image_def px_def)
  have pxs: "all_pixels ?img = [px 1 1 0, px 5 1 4]"
    by (simp add: all_pixels_def row_pixels_def row_image_def upt_rec)
  have v: "statisticsOver [px 1 1 0, px 5 1 4] = (2, Num 3, Num 8)"
    "statisticsOver (filter (\<lambda>p. mask_px p = 0) [px 1 1 0, px 5 1 4]) = (1, Num 1, NaN)"
    by (simp_all add: statisticsOver_def px_def)
  from statistics_mask_zero_counts_all [OF small] ex
  have "calculateMaskedImageStatistics_mask ?img 0 = statisticsOver (all_pixels ?img)"
    "calculateMaskedImageStatistics ?img
       = statisticsOver (filter (\<lambda>p. mask_px p = 0) (all_pixels ?img))"
    "calculateMaskedImageStatistics ?img \<noteq> calculateMaskedImageStatistics_mask ?img 0"
    by blast+
  then show ?thesis
    unfolding pxs v by simp
qed

text \<open>
  C10, as stated, on the image of \<open>65536 \<times> 65536\<close> pixels that all have the mask 1:
  the call with mask 0 selects all \<open>2^32\<close> pixels and its 32-bit counter is 0 at the
  end, so it returns the count 0 and no mean and no variance, which is also what the
  overload without a mask argument returns, which selects no pixel. The two overloads
  return the same count on an image in which every pixel has a nonzero mask.
\<close>

theorem statistics_mask_zero_counterexample:
  "calculateMaskedImageStatistics_mask (uniform_image 65536 65536 (px 1 1 1)) 0 = (0, NaN, NaN)
   \<and> calculateMaskedImageStatistics (uniform_image 65536 65536 (px 1 1 1)) = (0, NaN, NaN)
   \<and> mask_px (pixel_at (uniform_image 65536 65536 (px 1 1 1)) 0 0) \<noteq> 0"
proof -
  let ?img = "uniform_image 65536 65536 (px 1 1 1)"
  have none: "filter (\<lambda>p. mask_px p = 0) (all_pixels ?img) = []"
  proof -
    have "mask_px p \<noteq> 0" if "p \<in> set (all_pixels ?img)" for p
      using all_pixels_are_pixels [OF that] by (auto simp: uniform_image_def px_def)
    then show ?thesis by (simp add: filter_empty_conv)
  qed
  have len: "length (all_pixels ?img) = 65536 * 65536"
    by (simp add: length_all_pixels uniform_image_def)
  have sel: "filter (\<lambda>p. mask_px p AND 0 = 0) (all_pixels ?img) = all_pixels ?img"
    by simp
  have wrap: "(of_nat (length (all_pixels ?img)) :: 32 word) = 0"
    unfolding len by simp
  have a: "calculateMaskedImageStatistics_mask ?img 0 = (0, NaN, NaN)"
    unfolding calculateMaskedImageStatistics_mask_def foldl_accumulate sel
    by (simp add: wrap)
  have b: "calculateMaskedImageStatistics ?img = (0, NaN, NaN)"
    unfolding calculateMaskedImageStatistics_def foldl_accumulate none by simp
  have c: "mask_px (pixel_at ?img 0 0) \<noteq> 0"
    by (simp add: uniform_image_def px_def)
  from a b c show ?thesis by blast
qed

text \<open>
  C2. On three unmasked pixels with values 0, 0, 3 and variance 1 both overloads return
  the count 3, the mean 1 and the variance 2, which is the biased variance
  \<open>9 / 3 - 1\<close>: the factor \<^verbatim>\<open>nGoodPixels / (nGoodPixels - 1)\<close> is the integer
  quotient 1, where the unbiased sample variance has the factor \<open>3 / 2\<close> and is 3.
\<close>

theorem statistics_variance_is_biased_at_three:
  "calculateMaskedImageStatistics_mask (row_image [px 0 1 0, px 0 1 0, px 3 1 0]) 0
     = (3, Num 1, Num 2)
   \<and> calculateMaskedImageStatistics (row_image [px 0 1 0, px 0 1 0, px 3 1 0])
     = (3, Num 1, Num 2)
   \<and> ((9 / 3 - 1 * 1) * (3 / (3 - 1)) = (3::real))"
proof -
  let ?img = "row_image [px 0 1 0, px 0 1 0, px 3 1 0]"
  have pxs: "all_pixels ?img = [px 0 1 0, px 0 1 0, px 3 1 0]"
    by (simp add: all_pixels_def row_pixels_def row_image_def upt_rec)
  have a: "calculateMaskedImageStatistics_mask ?img 0 = (3, Num 1, Num 2)"
    unfolding calculateMaskedImageStatistics_mask_def pxs by (simp add: px_def)
  have b: "calculateMaskedImageStatistics ?img = (3, Num 1, Num 2)"
    unfolding calculateMaskedImageStatistics_def pxs by (simp add: px_def)
  show ?thesis using a b by simp
qed

section \<open>Properties of the delta-function basis\<close>

lemma sint_small: "unat (w :: 32 word) < 2 ^ 31 \<Longrightarrow> nat (sint w) = unat w"
proof -
  assume "unat w < 2 ^ 31"
  then have "int (unat w) < int (2 ^ 31)"
    by (simp only: of_nat_less_iff)
  then have up: "uint w < 2 ^ (LENGTH(32) - Suc 0)"
    by simp
  have "- (2 ^ (LENGTH(32) - Suc 0)) \<le> (0::int)"
    by simp
  also have "0 \<le> uint w" by simp
  finally have lo: "- (2 ^ (LENGTH(32) - Suc 0)) \<le> uint w" .
  have "sint w = signed_take_bit (LENGTH(32) - Suc 0) (uint w)"
    by (rule sint_uint)
  also have "\<dots> = uint w"
    using lo up by (rule signed_take_bit_int_eq_self)
  finally show ?thesis by simp
qed

lemma word_ge_one_nonzero: "1 \<le> (w :: 32 word) \<Longrightarrow> w \<noteq> 0"
  by auto

lemma concat_map_grid_length:
  "length (concat (map (\<lambda>row. map (\<lambda>col. f col row) [0..<w]) [0..<h])) = w * h"
  by (induction h) simp_all

lemma concat_map_grid_nth:
  "row < h \<Longrightarrow> col < w \<Longrightarrow>
   concat (map (\<lambda>row. map (\<lambda>col. f col row) [0..<w]) [0..<h]) ! (row * w + col) = f col row"
proof (induction h)
  case 0
  then show ?case by simp
next
  case (Suc h)
  let ?g = "\<lambda>n. concat (map (\<lambda>row. map (\<lambda>col. f col row) [0..<w]) [0..<n])"
  have len: "length (?g h) = w * h" by (rule concat_map_grid_length)
  show ?case
  proof (cases "row < h")
    case True
    then have "row * w + col < w * h"
    proof -
      from True have "Suc row \<le> h" by simp
      then have "Suc row * w \<le> h * w" by (rule mult_le_mono1)
      with \<open>col < w\<close> show ?thesis by (simp add: mult.commute)
    qed
    with Suc.IH [OF True \<open>col < w\<close>] len show ?thesis
      by (simp add: nth_append)
  next
    case False
    with Suc.prems have "row = h" by simp
    with len \<open>col < w\<close> show ?thesis
      by (simp add: nth_append mult.commute)
  qed
qed

lemma concat_map_grid_anchors:
  "map anchor (concat (map (\<lambda>row. map (\<lambda>col. DeltaFunctionKernel a b (col, row)) [0..<w]) [0..<h]))
     = concat (map (\<lambda>row. map (\<lambda>col. (col, row)) [0..<w]) [0..<h])"
  by (induction h) (simp_all add: anchor_def DeltaFunctionKernel_def comp_def)

lemma grid_set:
  "set (concat (map (\<lambda>row. map (\<lambda>col. (col, row)) [0..<w]) [0..<h])) = {0..<w} \<times> {0..<h::nat}"
  by auto

lemma grid_distinct:
  "distinct (concat (map (\<lambda>row. map (\<lambda>col. (col, row)) [0..<w]) [0..<h::nat]))"
proof (induction h)
  case 0
  then show ?case by simp
next
  case (Suc h)
  have "distinct (map (\<lambda>col. (col, h)) [0..<w])"
    by (simp add: distinct_map inj_on_def)
  with Suc show ?case by auto
qed

text \<open>
  C6, amended. For \<open>1 \<le> width, height < 2^31\<close> the call returns \<open>width * height\<close>
  kernels; the kernel at index \<open>row * width + col\<close> is the delta-function kernel
  built for the pixel \<open>(col, row)\<close>: weight 1 there and 0 elsewhere, anchor
  \<open>(col, row)\<close>; the anchors are pairwise different and are exactly the pixels of the
  \<open>width \<times> height\<close> grid. For \<open>width < 1\<close> or \<open>height < 1\<close> the call raises the
  exception "nRows and nCols must be positive".
\<close>

theorem generateDeltaFunctionKernelSet_basis:
  "(1 \<le> width \<and> 1 \<le> height \<and> unat width < 2 ^ 31 \<and> unat height < 2 ^ 31 \<longrightarrow>
      (\<exists>ks. generateDeltaFunctionKernelSet width height = Inr ks
         \<and> length ks = unat width * unat height
         \<and> (\<forall>row < unat height. \<forall>col < unat width.
               ks ! (row * unat width + col)
                 = DeltaFunctionKernel (unat width) (unat height) (col, row)
               \<and> (\<forall>x y. kernelPixel (ks ! (row * unat width + col)) x y
                           = (if (x, y) = (col, row) then 1 else 0))
               \<and> anchor (ks ! (row * unat width + col)) = (col, row))
         \<and> distinct (map anchor ks)
         \<and> set (map anchor ks) = {0..<unat width} \<times> {0..<unat height}))
   \<and> (width < 1 \<or> height < 1 \<longrightarrow>
        generateDeltaFunctionKernelSet width height
          = Inl (Exception ''nRows and nCols must be positive''))"
proof (intro conjI impI)
  assume a: "1 \<le> width \<and> 1 \<le> height \<and> unat width < 2 ^ 31 \<and> unat height < 2 ^ 31"
  let ?w = "unat width" and ?h = "unat height"
  let ?ks = "concat (map (\<lambda>row. map (\<lambda>col. DeltaFunctionKernel ?w ?h (col, row)) [0..<?w])
                      [0..<?h])"
  have sw: "nat (sint width) = ?w"
    using a by (simp add: sint_small)
  have sh: "nat (sint height) = ?h"
    using a by (simp add: sint_small)
  have pos: "\<not> (width < 1 \<or> height < 1)"
    using a by (simp add: not_less word_ge_one_nonzero)
  have run: "generateDeltaFunctionKernelSet width height = Inr ?ks"
    using pos by (simp add: generateDeltaFunctionKernelSet_def sw sh)
  have len: "length ?ks = ?w * ?h"
    by (rule concat_map_grid_length)
  have nth: "?ks ! (row * ?w + col) = DeltaFunctionKernel ?w ?h (col, row)"
    if "row < ?h" "col < ?w" for row col
    using that by (rule concat_map_grid_nth)
  have each: "?ks ! (row * ?w + col) = DeltaFunctionKernel ?w ?h (col, row)
               \<and> (\<forall>x y. kernelPixel (?ks ! (row * ?w + col)) x y
                           = (if (x, y) = (col, row) then 1 else 0))
               \<and> anchor (?ks ! (row * ?w + col)) = (col, row)"
    if "row < ?h" "col < ?w" for row col
    unfolding nth [OF that] by (simp add: DeltaFunctionKernel_def anchor_def)
  have dist: "distinct (map anchor ?ks)"
    by (simp only: concat_map_grid_anchors grid_distinct)
  have cover: "set (map anchor ?ks) = {0..<?w} \<times> {0..<?h}"
    by (simp only: concat_map_grid_anchors grid_set)
  show "\<exists>ks. generateDeltaFunctionKernelSet width height = Inr ks
         \<and> length ks = unat width * unat height
         \<and> (\<forall>row < unat height. \<forall>col < unat width.
               ks ! (row * unat width + col)
                 = DeltaFunctionKernel (unat width) (unat height) (col, row)
               \<and> (\<forall>x y. kernelPixel (ks ! (row * unat width + col)) x y
                           = (if (x, y) = (col, row) then 1 else 0))
               \<and> anchor (ks ! (row * unat width + col)) = (col, row))
         \<and> distinct (map anchor ks)
         \<and> set (map anchor ks) = {0..<unat width} \<times> {0..<unat height}"
    using run len each dist cover by blast
next
  assume "width < 1 \<or> height < 1"
  then show "generateDeltaFunctionKernelSet width height
          = Inl (Exception ''nRows and nCols must be positive'')"
    by (simp add: generateDeltaFunctionKernelSet_def)
qed

text \<open>
  The amended statement at \<open>width = 3\<close>, \<open>height = 2\<close>: six kernels, the one at index
  \<open>1 * 3 + 2\<close> has its unit weight and its anchor at \<open>(2, 1)\<close>; and at \<open>width = 0\<close>
  the call raises.
\<close>

theorem generateDeltaFunctionKernelSet_basis_witness:
  "(\<exists>ks. generateDeltaFunctionKernelSet 3 2 = Inr ks
      \<and> length ks = 6
      \<and> anchor (ks ! 5) = (2, 1)
      \<and> kernelPixel (ks ! 5) 2 1 = 1
      \<and> kernelPixel (ks ! 5) 1 1 = 0)
   \<and> generateDeltaFunctionKernelSet 0 2 = Inl (Exception ''nRows and nCols must be positive'')"
proof -
  have h: "(1::32 word) \<le> 3 \<and> (1::32 word) \<le> 2
            \<and> unat (3::32 word) < 2 ^ 31 \<and> unat (2::32 word) < 2 ^ 31"
    by simp
  from generateDeltaFunctionKernelSet_basis [of 3 2] h
  obtain ks where ks: "generateDeltaFunctionKernelSet 3 2 = Inr ks"
    "length ks = unat (3::32 word) * unat (2::32 word)"
    "\<forall>row < unat (2::32 word). \<forall>col < unat (3::32 word).
       ks ! (row * unat (3::32 word) + col)
         = DeltaFunctionKernel (unat (3::32 word)) (unat (2::32 word)) (col, row)
       \<and> (\<forall>x y. kernelPixel (ks ! (row * unat (3::32 word) + col)) x y
                   = (if (x, y) = (col, row) then 1 else 0))
       \<and> anchor (ks ! (row * unat (3::32 word) + col)) = (col, row)"
    by blast
  have "(1::nat) < unat (2::32 word)" "(2::nat) < unat (3::32 word)"
    by simp_all
  with ks(3) have "(\<forall>x y. kernelPixel (ks ! (1 * unat (3::32 word) + 2)) x y
                   = (if (x, y) = (2, 1) then 1 else 0))
       \<and> anchor (ks ! (1 * unat (3::32 word) + 2)) = (2, 1)"
    by blast
  then have five: "anchor (ks ! 5) = (2, 1)" "kernelPixel (ks ! 5) 2 1 = 1"
    "kernelPixel (ks ! 5) 1 1 = 0"
    by simp_all
  have z: "generateDeltaFunctionKernelSet 0 2 = Inl (Exception ''nRows and nCols must be positive'')"
    using generateDeltaFunctionKernelSet_basis [of 0 2] by simp
  from ks(1,2) five z show ?thesis by simp
qed

text \<open>
  C6, as stated, at \<open>width = 2^31\<close> and \<open>height = 1\<close>: both are at least 1, the
  claim promises \<open>2^31\<close> kernels, and the call returns the empty list, because
  \<^verbatim>\<open>static_cast<int>(width)\<close> is negative and the inner loop never runs.
\<close>

theorem generateDeltaFunctionKernelSet_counterexample:
  "generateDeltaFunctionKernelSet 2147483648 1 = Inr []
   \<and> (1::32 word) \<le> 2147483648
   \<and> unat (2147483648 :: 32 word) * unat (1 :: 32 word) = 2147483648"
  by (simp add: generateDeltaFunctionKernelSet_def)

section \<open>Properties of the convolution and subtraction\<close>

text \<open>
  C5. For each of the four overloads of \<^verbatim>\<open>convolveAndSubtract\<close> (a kernel or a
  linear-combination kernel, a scalar background or a background function), the
  intensity of the returned image at every pixel is the intensity of
  \<^verbatim>\<open>imageToNotConvolve\<close> minus the sum of the convolved \<^verbatim>\<open>imageToConvolve\<close> and the
  background at that pixel.
\<close>

theorem convolveAndSubtract_intensity:
  "\<forall>x < getWidth imageToConvolve. \<forall>y < getHeight imageToConvolve.
     intensity (convolveAndSubtract_Kernel_scalar convolve getMaskPlane
                  imageToConvolve imageToNotConvolve k bg) x y
       = intensity imageToNotConvolve x y
         - (image_px (convolve imageToConvolve k False (getMaskPlane ''EDGE'') x y) + bg)
   \<and> intensity (convolveAndSubtract_Linear_scalar convolveLinear getMaskPlane
                  imageToConvolve imageToNotConvolve linearKernel bg) x y
       = intensity imageToNotConvolve x y
         - (image_px (convolveLinear imageToConvolve linearKernel (getMaskPlane ''EDGE'') x y)
            + bg)
   \<and> intensity (convolveAndSubtract_Kernel_function convolve getMaskPlane positionToIndex
                  imageToConvolve imageToNotConvolve k bgFunction) x y
       = intensity imageToNotConvolve x y
         - (image_px (convolve imageToConvolve k False (getMaskPlane ''EDGE'') x y)
            + bgFunction (positionToIndex x) (positionToIndex y))
   \<and> intensity (convolveAndSubtract_Linear_function convolveLinear getMaskPlane positionToIndex
                  imageToConvolve imageToNotConvolve linearKernel bgFunction) x y
       = intensity imageToNotConvolve x y
         - (image_px (convolveLinear imageToConvolve linearKernel (getMaskPlane ''EDGE'') x y)
            + bgFunction (positionToIndex x) (positionToIndex y))"
  by (simp add: intensity_def convolveAndSubtract_Kernel_scalar_def
        convolveAndSubtract_Linear_scalar_def convolveAndSubtract_Kernel_function_def
        convolveAndSubtract_Linear_function_def add_scalar_def subtract_image_def
        multiply_scalar_def addFunctionToImage_def Let_def)

text \<open>
  At the pixel \<open>(1, 1)\<close> of two \<open>2 \<times> 2\<close> images, with a convolution that doubles the
  intensities: \<open>40 - (2 * 4 + 1) = 31\<close> for the background 1, and
  \<open>40 - (2 * 4 + (1 + 1)) = 30\<close> for the background function \<open>x + y\<close>.
\<close>

theorem convolveAndSubtract_intensity_witness:
  "intensity (convolveAndSubtract_Kernel_scalar doubling_convolve edge_plane
      (grid_image [[1, 2], [3, 4]] 1) (grid_image [[10, 20], [30, 40]] 1)
      (plain_kernel 1 1 0 0) 1) 1 1 = 31
   \<and> intensity (convolveAndSubtract_Linear_scalar doubling_convolveLinear edge_plane
      (grid_image [[1, 2], [3, 4]] 1) (grid_image [[10, 20], [30, 40]] 1)
      ([plain_kernel 1 1 0 0], [1]) 1) 1 1 = 31
   \<and> intensity (convolveAndSubtract_Kernel_function doubling_convolve edge_plane real
      (grid_image [[1, 2], [3, 4]] 1) (grid_image [[10, 20], [30, 40]] 1)
      (plain_kernel 1 1 0 0) (\<lambda>x y. x + y)) 1 1 = 30
   \<and> intensity (convolveAndSubtract_Linear_function doubling_convolveLinear edge_plane real
      (grid_image [[1, 2], [3, 4]] 1) (grid_image [[10, 20], [30, 40]] 1)
      ([plain_kernel 1 1 0 0], [1]) (\<lambda>x y. x + y)) 1 1 = 30"
proof -
  let ?A = "grid_image [[1, 2], [3, 4]] 1" and ?B = "grid_image [[10, 20], [30, 40]] 1"
  have w: "1 < getWidth ?A" and h: "1 < getHeight ?A"
    by (simp_all add: grid_image_def)
  have v: "intensity ?B (Suc 0) (Suc 0) = 40"
    "image_px (doubling_convolve ?A (plain_kernel (Suc 0) (Suc 0) 0 0) False (edge_plane ''EDGE'')
       (Suc 0) (Suc 0)) = 8"
    "image_px (doubling_convolveLinear ?A ([plain_kernel (Suc 0) (Suc 0) 0 0], [1])
       (edge_plane ''EDGE'') (Suc 0) (Suc 0)) = 8"
    by (simp_all add: intensity_def grid_image_def px_def doubling_convolve_def
          doubling_convolveLinear_def)
  from convolveAndSubtract_intensity
         [of ?A doubling_convolve edge_plane ?B "plain_kernel 1 1 0 0" 1
             doubling_convolveLinear "([plain_kernel 1 1 0 0], [1])" real "\<lambda>x y. x + y"]
       w h
  show ?thesis
    by (simp add: v)
qed

section \<open>Properties of the accumulation window and of the scan\<close>

lemma window_axis:
  fixes c kw W :: nat
  assumes "c < kw" "kw - c \<le> W" "kw < 2 ^ 31" "W < 2 ^ 31"
  shows "loopIndices (of_nat c) (of_nat W - (of_nat kw - of_nat c) + 1) = [c..<W - (kw - c) + 1]"
proof -
  have e: "(of_nat W - (of_nat kw - of_nat c) + 1 :: 32 word) = of_nat (W - (kw - c) + 1)"
    using assms(1,2) by (simp add: of_nat_diff)
  have "W - (kw - c) + 1 < 2 ^ LENGTH(32)" using assms(4) by simp
  then have u: "unat (of_nat (W - (kw - c) + 1) :: 32 word) = W - (kw - c) + 1"
    by (rule of_nat_inverse [OF refl])
  have "c < 2 ^ LENGTH(32)" using assms(1,3) by simp
  then have v: "unat (of_nat c :: 32 word) = c"
    by (rule of_nat_inverse [OF refl])
  show ?thesis
    unfolding loopIndices_def e u v ..
qed

text \<open>
  C3, amended. The window is computed from the first basis kernel and the first
  convolved image alone. When that kernel's anchor lies inside its extent and the kernel
  fits into the image (all sizes below \<open>2^31\<close>), the loop indices on each axis run from
  the anchor to \<open>size - (extent - anchor)\<close>, both included: the border on the high side
  has \<open>extent - anchor - 1\<close> pixels.
\<close>

theorem solverWindow_loop_indices:
  assumes "getCtrX k < getWidthK k" and "getWidthK k - getCtrX k \<le> getWidth c"
    and "getWidthK k < 2 ^ 31" and "getWidth c < 2 ^ 31"
    and "getCtrY k < getHeightK k" and "getHeightK k - getCtrY k \<le> getHeight c"
    and "getHeightK k < 2 ^ 31" and "getHeight c < 2 ^ 31"
  shows "\<exists>w. solverWindow (k # ks) (c # cs) = Inr w
           \<and> loopIndices (startCol w) (endCol w)
               = [getCtrX k..<getWidth c - (getWidthK k - getCtrX k) + 1]
           \<and> loopIndices (startRow w) (endRow w)
               = [getCtrY k..<getHeight c - (getHeightK k - getCtrY k) + 1]"
proof -
  have "solverWindow (k # ks) (c # cs) = Inr (accumulationWindow k c)"
    by (simp add: solverWindow_def)
  moreover have "loopIndices (startCol (accumulationWindow k c)) (endCol (accumulationWindow k c))
                   = [getCtrX k..<getWidth c - (getWidthK k - getCtrX k) + 1]"
    using window_axis [OF assms(1-4)] by (simp add: accumulationWindow_def)
  moreover have "loopIndices (startRow (accumulationWindow k c)) (endRow (accumulationWindow k c))
                   = [getCtrY k..<getHeight c - (getHeightK k - getCtrY k) + 1]"
    using window_axis [OF assms(5-8)] by (simp add: accumulationWindow_def)
  ultimately show ?thesis by blast
qed

text \<open>
  The amended statement for a \<open>5 \<times> 5\<close> kernel with its centre at \<open>(2, 2)\<close> and a
  \<open>100 \<times> 100\<close> image, with a second basis kernel of another centre: the indices run
  from 2 to 97 on both axes.
\<close>

theorem solverWindow_loop_indices_witness:
  "\<exists>w. solverWindow [plain_kernel 5 5 2 2, plain_kernel 5 5 0 0]
           [flat_image 100 100, flat_image 100 100] = Inr w
       \<and> loopIndices (startCol w) (endCol w) = [2..<98]
       \<and> loopIndices (startRow w) (endRow w) = [2..<98]"
proof -
  let ?k = "plain_kernel 5 5 2 2" and ?c = "flat_image 100 100"
  have h: "getCtrX ?k < getWidthK ?k" "getWidthK ?k - getCtrX ?k \<le> getWidth ?c"
    "getWidthK ?k < 2 ^ 31" "getWidth ?c < 2 ^ 31"
    "getCtrY ?k < getHeightK ?k" "getHeightK ?k - getCtrY ?k \<le> getHeight ?c"
    "getHeightK ?k < 2 ^ 31" "getHeight ?c < 2 ^ 31"
    by (simp_all add: plain_kernel_def flat_image_def)
  from solverWindow_loop_indices [OF h, of "[plain_kernel 5 5 0 0]" "[flat_image 100 100]"]
  show ?thesis
    by (simp add: plain_kernel_def flat_image_def)
qed

text \<open>
  C3, as stated, for that kernel and that image: the claim puts the last accumulated
  index at \<open>size - 1 - (extent - anchor) = 96\<close>; the column loop of the solver ends at 97.
\<close>

theorem solverWindow_counterexample:
  "solverWindow [plain_kernel 5 5 2 2] [flat_image 100 100]
     = Inr \<lparr>startCol = 2, startRow = 2, endCol = 98, endRow = 98\<rparr>
   \<and> last (loopIndices 2 98) = 97
   \<and> getWidth (flat_image 100 100) - 1
       - (getWidthK (plain_kernel 5 5 2 2) - getCtrX (plain_kernel 5 5 2 2)) = 96"
  by (simp add: solverWindow_def accumulationWindow_def plain_kernel_def flat_image_def
        loopIndices_def)

subsection \<open>The positions that the scan reads\<close>

lemma scanPixel_loc:
  "scanPixel T V cs (M, B, loc) = Inr (M', B', loc') \<Longrightarrow> loc' = (fst loc + 1, snd loc)"
  by (auto simp: scanPixel_def split: sum.splits option.splits prod.splits)

lemma scanCols_loc:
  "scanCols k T V cs (M, B, loc) = Inr (M', B', loc') \<Longrightarrow> loc' = (fst loc + k, snd loc)"
proof (induction k arbitrary: M B loc)
  case 0
  then show ?case by simp
next
  case (Suc k)
  from Suc.prems obtain M1 B1 loc1 where
    s: "scanPixel T V cs (M, B, loc) = Inr (M1, B1, loc1)"
    and r: "scanCols k T V cs (M1, B1, loc1) = Inr (M', B', loc')"
    by (auto split: sum.splits)
  from scanPixel_loc [OF s] Suc.IH [OF r] show ?case by simp
qed

text \<open>
  After \<open>r\<close> rows of \<open>nCols\<close> columns the locators stand \<open>r * nCols\<close> pixels to the
  right of the column where the scan began: each row starts where the row before ended.
\<close>

lemma scanRows_loc:
  "scanRows r nCols T V cs (M, B, loc) = Inr (M', B', loc') \<Longrightarrow>
     loc' = (fst loc + r * nCols, snd loc + r)"
proof (induction r arbitrary: M B loc)
  case 0
  then show ?case by simp
next
  case (Suc r)
  from Suc.prems obtain M1 B1 loc1 where
    s: "scanCols nCols T V cs (M, B, loc) = Inr (M1, B1, loc1)"
    and t: "scanRows r nCols T V cs (M1, B1, (fst loc1, snd loc1 + 1)) = Inr (M', B', loc')"
    by (auto split: sum.splits)
  from scanCols_loc [OF s] Suc.IH [OF t] show ?case by (simp add: algebra_simps)
qed

lemma window_two_rows:
  "accumulationWindow (plain_kernel 2 1 0 0) (flat_image 2 2)
     = \<lparr>startCol = 0, startRow = 0, endCol = 1, endRow = 2\<rparr>"
  by (simp add: accumulationWindow_def plain_kernel_def flat_image_def)

lemma loopIndices_small: "loopIndices 0 1 = [0]" "loopIndices 0 2 = [0, 1]"
  by (simp_all add: loopIndices_def upt_rec)

text \<open>
  C4. One basis kernel of extent \<open>2 \<times> 1\<close> with its centre at \<open>(0, 0)\<close> and \<open>2 \<times> 2\<close>
  images: the window has the pixels \<open>(0, 0)\<close> and \<open>(0, 1)\<close>. With the convolved
  intensity 1 and the variance 1 everywhere and the intensities 1 and 2 of
  \<^verbatim>\<open>imageToNotConvolve\<close> at those pixels, the sums of the claim over the window are
  \<open>B[1] = 3\<close> and \<open>B[0] = 3\<close>. The scan reads \<open>(0, 0)\<close> and then \<open>(1, 1)\<close>, where the
  intensity is 5, and ends with \<open>B[1] = 6\<close> and \<open>B[0] = 6\<close>, its locators at \<open>(2, 2)\<close>.
\<close>

theorem scanWindow_leaves_window_at_second_row:
  "(\<exists>M B. scanWindow (accumulationWindow (plain_kernel 2 1 0 0) (flat_image 2 2))
             (grid_image [[1, 0], [2, 5]] 1) (flat_image 2 2) [flat_image 2 2]
           = Inr (M, B, (2, 2))
         \<and> B 1 = 6 \<and> B 0 = 6 \<and> M 1 1 = 2 \<and> M 0 0 = 2 \<and> M 0 1 = 2)
   \<and> windowSum (accumulationWindow (plain_kernel 2 1 0 0) (flat_image 2 2))
        (\<lambda>x y. intensity (grid_image [[1, 0], [2, 5]] 1) x y
                 * (1 / variance_px (pixel_at (flat_image 2 2) x y))) = 3
   \<and> windowSum (accumulationWindow (plain_kernel 2 1 0 0) (flat_image 2 2))
        (\<lambda>x y. intensity (grid_image [[1, 0], [2, 5]] 1) x y
                 * intensity (flat_image 2 2) x y
                 * (1 / variance_px (pixel_at (flat_image 2 2) x y))) = 3"
proof -
  have scan: "\<exists>M B. scanWindow (accumulationWindow (plain_kernel 2 1 0 0) (flat_image 2 2))
             (grid_image [[1, 0], [2, 5]] 1) (flat_image 2 2) [flat_image 2 2]
           = Inr (M, B, (2, 2))
         \<and> B 1 = 6 \<and> B 0 = 6 \<and> M 1 1 = 2 \<and> M 0 0 = 2 \<and> M 0 1 = 2"
    unfolding window_two_rows scanWindow_def
    by (simp add: loopIndices_small scanPixel_def locate_def readConvolved_def grid_image_def
          flat_image_def px_def accumulatePixel_def accumulateRow_def matrix_add_def
          vector_add_def)
  have sums: "windowSum (accumulationWindow (plain_kernel 2 1 0 0) (flat_image 2 2))
        (\<lambda>x y. intensity (grid_image [[1, 0], [2, 5]] 1) x y
                 * (1 / variance_px (pixel_at (flat_image 2 2) x y))) = 3"
    "windowSum (accumulationWindow (plain_kernel 2 1 0 0) (flat_image 2 2))
        (\<lambda>x y. intensity (grid_image [[1, 0], [2, 5]] 1) x y
                 * intensity (flat_image 2 2) x y
                 * (1 / variance_px (pixel_at (flat_image 2 2) x y))) = 3"
    unfolding window_two_rows
    by (simp_all add: windowSum_def loopIndices_small intensity_def grid_image_def
          flat_image_def px_def)
  from scan sums show ?thesis by blast
qed

subsection \<open>What the scan accumulates\<close>

lemma foldl_matrix_add_row:
  "foldl (\<lambda>M j. matrix_add M i j (v j)) M [lo..<hi]
     = (\<lambda>a b. M a b + (if a = i \<and> lo \<le> b \<and> b < hi then v b else 0))"
proof (induction hi)
  case 0
  then show ?case by simp
next
  case (Suc hi)
  show ?case
  proof (cases "lo \<le> hi")
    case True
    then have "foldl (\<lambda>M j. matrix_add M i j (v j)) M [lo..<Suc hi]
                 = matrix_add (foldl (\<lambda>M j. matrix_add M i j (v j)) M [lo..<hi]) i hi (v hi)"
      by simp
    also have "\<dots> = matrix_add
                 (\<lambda>a b. M a b + (if a = i \<and> lo \<le> b \<and> b < hi then v b else 0)) i hi (v hi)"
      by (simp only: Suc.IH)
    also have "\<dots> = (\<lambda>a b. M a b + (if a = i \<and> lo \<le> b \<and> b < Suc hi then v b else 0))"
      using True by (auto simp: matrix_add_def fun_eq_iff)
    finally show ?thesis .
  next
    case False
    then show ?thesis by (auto simp: fun_eq_iff)
  qed
qed

lemma accumulateRow_eq:
  "accumulateRow n w cd i M
     = (\<lambda>a b. M a b + (if a = i \<and> i \<le> b \<and> b < n then cd i * cd b * w else 0))"
  unfolding accumulateRow_def
  using foldl_matrix_add_row [of i "\<lambda>j. cd i * cd j * w" M i n] by simp

lemma accumulate_kernel_terms:
  "k \<le> n \<Longrightarrow>
   foldl (\<lambda>(M, B) kidxi.
            (matrix_add (accumulateRow n w cd kidxi M) kidxi n (cd kidxi * w),
             vector_add B kidxi (nc * cd kidxi * w)))
     (M, B) [0..<k]
   = ((\<lambda>a b. M a b + (if a < k \<and> a \<le> b \<and> b < n then cd a * cd b * w else 0)
                     + (if a < k \<and> b = n then cd a * w else 0)),
      (\<lambda>a. B a + (if a < k then nc * cd a * w else 0)))"
proof (induction k)
  case 0
  then show ?case by simp
next
  case (Suc k)
  then have k: "k \<le> n" "k < n" by simp_all
  let ?f = "\<lambda>(M, B) kidxi.
            (matrix_add (accumulateRow n w cd kidxi M) kidxi n (cd kidxi * w),
             vector_add B kidxi (nc * cd kidxi * w))"
  let ?Mk = "\<lambda>a b. M a b + (if a < k \<and> a \<le> b \<and> b < n then cd a * cd b * w else 0)
                     + (if a < k \<and> b = n then cd a * w else 0)"
  let ?Bk = "\<lambda>a. B a + (if a < k then nc * cd a * w else 0)"
  have "foldl ?f (M, B) [0..<Suc k] = ?f (foldl ?f (M, B) [0..<k]) k"
    by simp
  also have "\<dots> = ?f (?Mk, ?Bk) k"
    by (simp only: Suc.IH [OF k(1)])
  also have "\<dots> = ((\<lambda>a b. M a b + (if a < Suc k \<and> a \<le> b \<and> b < n then cd a * cd b * w else 0)
                     + (if a < Suc k \<and> b = n then cd a * w else 0)),
      (\<lambda>a. B a + (if a < Suc k then nc * cd a * w else 0)))"
    using k by (auto simp: accumulateRow_eq matrix_add_def vector_add_def fun_eq_iff)
  finally show ?case .
qed

lemma accumulatePixel_eq:
  "accumulatePixel n nc w cd (M, B)
     = ((\<lambda>i j. M i j + pixelTermM n w cd i j), (\<lambda>i. B i + pixelTermB n nc w cd i))"
proof -
  have e: "n + 1 - 1 = n" by simp
  show ?thesis
    unfolding accumulatePixel_def Let_def e accumulate_kernel_terms [OF order_refl]
    by (auto simp: matrix_add_def vector_add_def fun_eq_iff pixelTermM_def pixelTermB_def)
qed

lemma scanPixel_eq:
  assumes "scanPixel T V cs (M, B, (x, y)) = Inr (M', B', loc')"
  shows "M' = (\<lambda>i j. M i j + termM V cs x y i j)"
    and "B' = (\<lambda>i. B i + termB T V cs x y i)"
    and "loc' = (x + 1, y)"
    and "x < getWidth T \<and> y < getHeight T"
  using assms
  by (auto simp: scanPixel_def locate_def readConvolved_def accumulatePixel_eq termM_def
        termB_def split: if_splits)

lemma scanCols_eq:
  "scanCols k T V cs (M, B, (x, y)) = Inr (M', B', loc') \<Longrightarrow>
     M' = (\<lambda>i j. M i j + (\<Sum>c<k. termM V cs (x + c) y i j))
     \<and> B' = (\<lambda>i. B i + (\<Sum>c<k. termB T V cs (x + c) y i))
     \<and> loc' = (x + k, y)"
proof (induction k arbitrary: M B x)
  case 0
  then show ?case by simp
next
  case (Suc k)
  from Suc.prems obtain M1 B1 loc1 where
    s: "scanPixel T V cs (M, B, (x, y)) = Inr (M1, B1, loc1)"
    and r: "scanCols k T V cs (M1, B1, loc1) = Inr (M', B', loc')"
    by (auto split: sum.splits)
  note p = scanPixel_eq(1-3) [OF s]
  from Suc.IH [OF r [unfolded p(3)]] have
    ih: "M' = (\<lambda>i j. M1 i j + (\<Sum>c<k. termM V cs (x + 1 + c) y i j))"
        "B' = (\<lambda>i. B1 i + (\<Sum>c<k. termB T V cs (x + 1 + c) y i))"
        "loc' = (x + 1 + k, y)"
    by simp_all
  have "M' = (\<lambda>i j. M i j + (\<Sum>c<Suc k. termM V cs (x + c) y i j))"
    unfolding ih(1) p(1) sum.lessThan_Suc_shift by (simp add: fun_eq_iff add.assoc)
  moreover have "B' = (\<lambda>i. B i + (\<Sum>c<Suc k. termB T V cs (x + c) y i))"
    unfolding ih(2) p(2) sum.lessThan_Suc_shift by (simp add: fun_eq_iff add.assoc)
  ultimately show ?case using ih(3) by simp
qed

text \<open>
  What the scan of \<open>r\<close> rows of \<open>nCols\<close> columns adds to \<open>M\<close> and \<open>B\<close>: the terms of
  the pixels at the positions \<open>(x + q * nCols + c, y + q)\<close> for \<open>q < r\<close> and
  \<open>c < nCols\<close>, where \<open>(x, y)\<close> is the position at which the scan begins.
\<close>

lemma scanRows_eq:
  "scanRows r nCols T V cs (M, B, (x, y)) = Inr (M', B', loc') \<Longrightarrow>
     M' = (\<lambda>i j. M i j + (\<Sum>q<r. \<Sum>c<nCols. termM V cs (x + q * nCols + c) (y + q) i j))
     \<and> B' = (\<lambda>i. B i + (\<Sum>q<r. \<Sum>c<nCols. termB T V cs (x + q * nCols + c) (y + q) i))
     \<and> loc' = (x + r * nCols, y + r)"
proof (induction r arbitrary: M B x y)
  case 0
  then show ?case by simp
next
  case (Suc r)
  from Suc.prems obtain M1 B1 loc1 where
    s: "scanCols nCols T V cs (M, B, (x, y)) = Inr (M1, B1, loc1)"
    and t: "scanRows r nCols T V cs (M1, B1, (fst loc1, snd loc1 + 1)) = Inr (M', B', loc')"
    by (auto split: sum.splits)
  from scanCols_eq [OF s] have
    p: "M1 = (\<lambda>i j. M i j + (\<Sum>c<nCols. termM V cs (x + c) y i j))"
       "B1 = (\<lambda>i. B i + (\<Sum>c<nCols. termB T V cs (x + c) y i))"
       "loc1 = (x + nCols, y)"
    by simp_all
  from Suc.IH [OF t [unfolded p(3) fst_conv snd_conv]] have
    ih: "M' = (\<lambda>i j. M1 i j
                + (\<Sum>q<r. \<Sum>c<nCols. termM V cs (x + nCols + q * nCols + c) (y + 1 + q) i j))"
        "B' = (\<lambda>i. B1 i
                + (\<Sum>q<r. \<Sum>c<nCols. termB T V cs (x + nCols + q * nCols + c) (y + 1 + q) i))"
        "loc' = (x + nCols + r * nCols, y + 1 + r)"
    by simp_all
  have "M' = (\<lambda>i j. M i j
                + (\<Sum>q<Suc r. \<Sum>c<nCols. termM V cs (x + q * nCols + c) (y + q) i j))"
    unfolding ih(1) p(1) sum.lessThan_Suc_shift [of _ r]
    by (simp add: fun_eq_iff add.assoc add.left_commute add.commute)
  moreover have "B' = (\<lambda>i. B i
                + (\<Sum>q<Suc r. \<Sum>c<nCols. termB T V cs (x + q * nCols + c) (y + q) i))"
    unfolding ih(2) p(2) sum.lessThan_Suc_shift [of _ r]
    by (simp add: fun_eq_iff add.assoc add.left_commute add.commute)
  ultimately show ?case using ih(3) by (simp add: algebra_simps)
qed

lemma sum_list_upt_shift:
  "(\<Sum>k\<leftarrow>[a..<b]. f k) = (\<Sum>k<b - a. (f (a + k) :: real))"
proof (induction b)
  case 0
  then show ?case by simp
next
  case (Suc b)
  show ?case
  proof (cases "a \<le> b")
    case True
    then have "Suc b - a = Suc (b - a)" by simp
    with True Suc show ?thesis by simp
  next
    case False
    then show ?thesis by simp
  qed
qed

lemma windowSum_eq:
  "windowSum w f =
     (\<Sum>q<unat (endRow w) - unat (startRow w). \<Sum>c<unat (endCol w) - unat (startCol w).
        f (unat (startCol w) + c) (unat (startRow w) + q))"
  by (simp add: windowSum_def loopIndices_def sum_list_upt_shift)

lemma scanWindow_eq:
  assumes "scanWindow w T V cs = Inr (M, B, loc)"
  defines "nRows \<equiv> unat (endRow w) - unat (startRow w)"
    and "nCols \<equiv> unat (endCol w) - unat (startCol w)"
  shows "M = (\<lambda>i j. \<Sum>q<nRows. \<Sum>c<nCols.
                termM V cs (unat (startCol w) + q * nCols + c) (unat (startRow w) + q) i j)"
    and "B = (\<lambda>i. \<Sum>q<nRows. \<Sum>c<nCols.
                termB T V cs (unat (startCol w) + q * nCols + c) (unat (startRow w) + q) i)"
    and "loc = (unat (startCol w) + nRows * nCols, unat (startRow w) + nRows)"
proof -
  from assms(1) have
    "scanRows nRows nCols T V cs ((\<lambda>i j. 0), (\<lambda>i. 0), (unat (startCol w), unat (startRow w)))
       = Inr (M, B, loc)"
    by (simp add: scanWindow_def loopIndices_def nRows_def nCols_def)
  from scanRows_eq [OF this]
  show "M = (\<lambda>i j. \<Sum>q<nRows. \<Sum>c<nCols.
                termM V cs (unat (startCol w) + q * nCols + c) (unat (startRow w) + q) i j)"
    and "B = (\<lambda>i. \<Sum>q<nRows. \<Sum>c<nCols.
                termB T V cs (unat (startCol w) + q * nCols + c) (unat (startRow w) + q) i)"
    and "loc = (unat (startCol w) + nRows * nCols, unat (startRow w) + nRows)"
    by simp_all
qed

text \<open>
  When the window has at most one row, the scan accumulates the sums over the window:
  the first row of the scan is the only one that starts at \<open>startCol\<close>.
\<close>

lemma scanWindow_one_row:
  assumes "scanWindow w T V cs = Inr (M, B, loc)"
    and "unat (endRow w) - unat (startRow w) \<le> 1"
  shows "M i j = windowSum w (\<lambda>x y. termM V cs x y i j)"
    and "B i = windowSum w (\<lambda>x y. termB T V cs x y i)"
proof -
  let ?R = "unat (endRow w) - unat (startRow w)"
  from assms(2) consider "?R = 0" | "?R = 1" by linarith
  then have "M i j = windowSum w (\<lambda>x y. termM V cs x y i j)
             \<and> B i = windowSum w (\<lambda>x y. termB T V cs x y i)"
  proof cases
    case 1
    then show ?thesis
      unfolding scanWindow_eq(1,2) [OF assms(1)] windowSum_eq by simp
  next
    case 2
    then show ?thesis
      unfolding scanWindow_eq(1,2) [OF assms(1)] windowSum_eq by simp
  qed
  then show "M i j = windowSum w (\<lambda>x y. termM V cs x y i j)"
    and "B i = windowSum w (\<lambda>x y. termB T V cs x y i)"
    by simp_all
qed

text \<open>
  The terms are those of the spec's accumulation: \<open>C\<^sub>i C\<^sub>j w\<close> for \<open>i \<le> j < n\<close>, \<open>C\<^sub>i w\<close> in the last
  column, \<open>w\<close> in the corner, and \<open>T C\<^sub>i w\<close> and \<open>T w\<close> in \<open>B\<close>.
\<close>

lemma termM_values:
  "i \<le> j \<Longrightarrow> j < length cs \<Longrightarrow>
     termM V cs x y i j = intensity (cs ! i) x y * intensity (cs ! j) x y
                            * (1 / variance_px (pixel_at V x y))"
  "i < length cs \<Longrightarrow>
     termM V cs x y i (length cs) = intensity (cs ! i) x y * (1 / variance_px (pixel_at V x y))"
  "termM V cs x y (length cs) (length cs) = 1 / variance_px (pixel_at V x y)"
  by (simp_all add: termM_def pixelTermM_def intensity_def)

lemma termB_values:
  "i < length cs \<Longrightarrow>
     termB T V cs x y i = intensity T x y * intensity (cs ! i) x y
                            * (1 / variance_px (pixel_at V x y))"
  "termB T V cs x y (length cs) = intensity T x y * (1 / variance_px (pixel_at V x y))"
  by (simp_all add: termB_def pixelTermB_def intensity_def)

subsection \<open>The mirroring of \<open>M\<close>\<close>

lemma fill_column:
  "foldl (\<lambda>M kidxj. M(kidxj := (M kidxj)(i := M i kidxj))) M [i + 1..<hi]
     = (\<lambda>a b. if b = i \<and> i < a \<and> a < hi then M i a else M a b)"
proof (induction hi)
  case 0
  then show ?case by (simp add: fun_eq_iff)
next
  case (Suc hi)
  show ?case
  proof (cases "i + 1 \<le> hi")
    case True
    let ?g = "\<lambda>M kidxj. M(kidxj := (M kidxj)(i := M i kidxj))"
    from True have "foldl ?g M [i + 1..<Suc hi] = ?g (foldl ?g M [i + 1..<hi]) hi"
      by simp
    also have "\<dots> = ?g (\<lambda>a b. if b = i \<and> i < a \<and> a < hi then M i a else M a b) hi"
      by (simp only: Suc.IH)
    also have "\<dots> = (\<lambda>a b. if b = i \<and> i < a \<and> a < Suc hi then M i a else M a b)"
      using True by (auto simp: fun_eq_iff)
    finally show ?thesis .
  next
    case False
    then show ?thesis by (auto simp: fun_eq_iff)
  qed
qed

lemma fillLowerTriangle_upto:
  "foldl (\<lambda>M kidxi.
            foldl (\<lambda>M kidxj. M(kidxj := (M kidxj)(kidxi := M kidxi kidxj)))
              M [kidxi + 1..<n])
     M [0..<k]
   = (\<lambda>a b. if b < k \<and> b < a \<and> a < n then M b a else M a b)"
proof (induction k)
  case 0
  then show ?case by (simp add: fun_eq_iff)
next
  case (Suc k)
  let ?inner = "\<lambda>M kidxi. foldl (\<lambda>M kidxj. M(kidxj := (M kidxj)(kidxi := M kidxi kidxj)))
              M [kidxi + 1..<n]"
  let ?Mk = "\<lambda>a b. if b < k \<and> b < a \<and> a < n then M b a else M a b"
  have "foldl ?inner M [0..<Suc k] = ?inner (foldl ?inner M [0..<k]) k"
    by simp
  also have "\<dots> = ?inner ?Mk k"
    by (simp only: Suc.IH)
  also have "\<dots> = (\<lambda>a b. if b = k \<and> k < a \<and> a < n then ?Mk k a else ?Mk a b)"
    by (rule fill_column)
  also have "\<dots> = (\<lambda>a b. if b < Suc k \<and> b < a \<and> a < n then M b a else M a b)"
    by (auto simp: fun_eq_iff)
  finally show ?case .
qed

text \<open>After the mirroring, \<open>M\<close> is symmetric on the indices of the parameters.\<close>

lemma fillLowerTriangle_symmetric:
  "i < n \<Longrightarrow> j < n \<Longrightarrow> fillLowerTriangle n M j i = fillLowerTriangle n M i j"
  unfolding fillLowerTriangle_def fillLowerTriangle_upto by auto

lemma fillLowerTriangle_upper:
  "i \<le> j \<Longrightarrow> fillLowerTriangle n M i j = M i j"
  unfolding fillLowerTriangle_def fillLowerTriangle_upto by auto

section \<open>Properties of the translation of the solution\<close>

lemma translateCols_add:
  "translateCols (a + b) nP X Cov s =
     (case translateCols a nP X Cov s of Inl e \<Rightarrow> Inl e | Inr s' \<Rightarrow> translateCols b nP X Cov s')"
  by (induction a arbitrary: s) (simp_all split: sum.splits)

lemma translateRows_flat:
  "translateRows r c nP X Cov s = translateCols (r * c) nP X Cov s"
  by (induction r arbitrary: s) (simp_all add: translateCols_add split: sum.splits)

lemma translateEntry_Inr:
  "translateEntry nP X Cov (idx, kv, ke) = Inr s' \<Longrightarrow>
     idx < nP \<and> idx < length kv \<and> idx < length ke
     \<and> (\<exists>x c. X idx = Num x \<and> Cov idx idx = Num c \<and> \<not> c < 0
          \<and> s' = (idx + 1, kv[idx := x], ke[idx := sqrt c]))"
  by (auto simp: translateEntry_def gsl_vector_get_def gsl_matrix_get_def
           split: if_splits sum.splits double.splits)

lemma translateCols_Inr:
  "translateCols k nP X Cov (idx, kv, ke) = Inr (idx', kv', ke') \<Longrightarrow>
     idx' = idx + k \<and> length kv' = length kv \<and> length ke' = length ke
     \<and> (\<forall>i. idx \<le> i \<and> i < idx + k \<longrightarrow>
           i < nP \<and> i < length kv \<and> i < length ke
           \<and> X i = Num (kv' ! i) \<and> covarianceOk (Cov i i) \<and> ke' ! i = sqrt (num (Cov i i)))
     \<and> (\<forall>i < idx. kv' ! i = kv ! i \<and> ke' ! i = ke ! i)"
proof (induction k arbitrary: idx kv ke)
  case 0
  then show ?case by auto
next
  case (Suc k)
  from Suc.prems obtain s1 where s1: "translateEntry nP X Cov (idx, kv, ke) = Inr s1"
    and rest: "translateCols k nP X Cov s1 = Inr (idx', kv', ke')"
    by (auto split: sum.splits)
  from translateEntry_Inr [OF s1] obtain x c where
    e: "idx < nP" "idx < length kv" "idx < length ke" "X idx = Num x" "Cov idx idx = Num c"
       "\<not> c < 0" "s1 = (idx + 1, kv[idx := x], ke[idx := sqrt c])"
    by blast
  from Suc.IH [OF rest [unfolded e(7)]] have
    ih: "idx' = idx + 1 + k" "length kv' = length kv" "length ke' = length ke"
        "\<forall>i. idx + 1 \<le> i \<and> i < idx + 1 + k \<longrightarrow>
           i < nP \<and> i < length kv \<and> i < length ke
           \<and> X i = Num (kv' ! i) \<and> covarianceOk (Cov i i) \<and> ke' ! i = sqrt (num (Cov i i))"
        "\<forall>i < idx + 1. kv' ! i = kv[idx := x] ! i \<and> ke' ! i = ke[idx := sqrt c] ! i"
    by simp_all
  have at: "kv' ! idx = x" "ke' ! idx = sqrt c"
    using ih(5) e(2,3) by simp_all
  have "i < nP \<and> i < length kv \<and> i < length ke
           \<and> X i = Num (kv' ! i) \<and> covarianceOk (Cov i i) \<and> ke' ! i = sqrt (num (Cov i i))"
    if "idx \<le> i" "i < idx + Suc k" for i
  proof (cases "i = idx")
    case True
    with e at show ?thesis by simp
  next
    case False
    with that have "idx + 1 \<le> i \<and> i < idx + 1 + k" by simp
    with ih(4) show ?thesis by blast
  qed
  moreover have "kv' ! i = kv ! i \<and> ke' ! i = ke ! i" if "i < idx" for i
    using ih(5) that by simp
  ultimately show ?case using ih(1,2,3) by simp
qed

lemma translateEntry_no_fault:
  "idx < nP \<Longrightarrow> idx < length kv \<Longrightarrow> idx < length ke \<Longrightarrow>
   translateEntry nP X Cov (idx, kv, ke) = Inl e \<Longrightarrow> \<not> isFault e"
  by (auto simp: translateEntry_def gsl_vector_get_def gsl_matrix_get_def
           split: if_splits sum.splits double.splits)

lemma translateCols_no_fault:
  "\<forall>i. idx \<le> i \<and> i < idx + k \<longrightarrow> i < nP \<and> i < length kv \<and> i < length ke \<Longrightarrow>
   translateCols k nP X Cov (idx, kv, ke) = Inl e \<Longrightarrow> \<not> isFault e"
proof (induction k arbitrary: idx kv ke)
  case 0
  then show ?case by simp
next
  case (Suc k)
  have here: "idx < nP" "idx < length kv" "idx < length ke"
    using Suc.prems(1) by simp_all
  show ?case
  proof (cases "translateEntry nP X Cov (idx, kv, ke)")
    case (Inl e')
    with Suc.prems(2) have "e' = e" by simp
    with translateEntry_no_fault [OF here] Inl show ?thesis by simp
  next
    case (Inr s1)
    from translateEntry_Inr [OF Inr] obtain x c where
      s1: "s1 = (idx + 1, kv[idx := x], ke[idx := sqrt c])" by blast
    have rng: "\<forall>i. idx + 1 \<le> i \<and> i < idx + 1 + k \<longrightarrow>
                 i < nP \<and> i < length (kv[idx := x]) \<and> i < length (ke[idx := sqrt c])"
      using Suc.prems(1) by simp
    from Suc.prems(2) Inr s1
    have "translateCols k nP X Cov (idx + 1, kv[idx := x], ke[idx := sqrt c]) = Inl e"
      by simp
    with Suc.IH [OF rng] show ?thesis by blast
  qed
qed

lemma translateEntry_valid:
  "\<forall>i. X i \<noteq> NaN \<and> covarianceOk (Cov i i) \<Longrightarrow>
   translateEntry nP X Cov (idx, kv, ke) = Inl e \<Longrightarrow> isFault e"
proof -
  assume v: "\<forall>i. X i \<noteq> NaN \<and> covarianceOk (Cov i i)"
  assume r: "translateEntry nP X Cov (idx, kv, ke) = Inl e"
  from v obtain x where x: "X idx = Num x" by (cases "X idx") auto
  from v obtain c where c: "Cov idx idx = Num c" "\<not> c < 0"
    by (cases "Cov idx idx") (auto dest: spec [of _ idx])
  from r x c show ?thesis
    by (auto simp: translateEntry_def gsl_vector_get_def gsl_matrix_get_def split: if_splits)
qed

lemma translateCols_valid:
  "\<forall>i. X i \<noteq> NaN \<and> covarianceOk (Cov i i) \<Longrightarrow>
   translateCols k nP X Cov s = Inl e \<Longrightarrow> isFault e"
proof (induction k arbitrary: s)
  case 0
  then show ?case by simp
next
  case (Suc k)
  obtain idx kv ke where s: "s = (idx, kv, ke)" by (cases s) auto
  show ?case
  proof (cases "translateEntry nP X Cov s")
    case (Inl e')
    with Suc.prems(2) have "e' = e" by simp
    with translateEntry_valid [of X Cov nP idx kv ke e] Suc.prems(1) Inl s show ?thesis by blast
  next
    case (Inr s1)
    with Suc.prems(2) have "translateCols k nP X Cov s1 = Inl e" by simp
    with Suc.IH [of s1] Suc.prems(1) show ?thesis by blast
  qed
qed

text \<open>
  The first entry that fails the covariance check decides the exception: it is the
  exception of that entry's value.
\<close>

lemma translateCols_first_failure:
  "idx \<le> i \<Longrightarrow> i < idx + k \<Longrightarrow> i < nP \<Longrightarrow>
   \<forall>j. idx \<le> j \<and> j < i \<longrightarrow> j < length kv \<and> j < length ke
          \<and> X j \<noteq> NaN \<and> covarianceOk (Cov j j) \<Longrightarrow>
   X i \<noteq> NaN \<Longrightarrow> \<not> covarianceOk (Cov i i) \<Longrightarrow>
   translateCols k nP X Cov (idx, kv, ke) = Inl (covarianceError (Cov i i))"
proof (induction k arbitrary: idx kv ke)
  case 0
  then show ?case by simp
next
  case (Suc k)
  show ?case
  proof (cases "i = idx")
    case True
    from Suc.prems(5) obtain x where "X i = Num x" by (cases "X i") auto
    with True Suc.prems(3,6) show ?thesis
      by (cases "Cov i i")
         (auto simp: translateEntry_def gsl_vector_get_def gsl_matrix_get_def)
  next
    case False
    with Suc.prems(1) have lt: "idx < i" by simp
    with Suc.prems(4) have g: "idx < length kv" "idx < length ke" "X idx \<noteq> NaN"
      "covarianceOk (Cov idx idx)" by simp_all
    from g(3) obtain x where x: "X idx = Num x" by (cases "X idx") auto
    from g(4) obtain c where c: "Cov idx idx = Num c" "\<not> c < 0"
      by (cases "Cov idx idx") auto
    have "idx < nP" using lt Suc.prems(3) by simp
    with x c g(1,2)
    have step: "translateEntry nP X Cov (idx, kv, ke)
                  = Inr (idx + 1, kv[idx := x], ke[idx := sqrt c])"
      by (simp add: translateEntry_def gsl_vector_get_def gsl_matrix_get_def)
    have "translateCols k nP X Cov (idx + 1, kv[idx := x], ke[idx := sqrt c])
            = Inl (covarianceError (Cov i i))"
      using lt Suc.prems(2,3,4,5,6) by (intro Suc.IH) simp_all
    with step show ?thesis by simp
  qed
qed

lemma translateCols_good:
  "\<forall>j. idx \<le> j \<and> j < idx + k \<longrightarrow>
          j < nP \<and> j < length kv \<and> j < length ke \<and> X j \<noteq> NaN \<and> covarianceOk (Cov j j) \<Longrightarrow>
   \<exists>kv' ke'. translateCols k nP X Cov (idx, kv, ke) = Inr (idx + k, kv', ke')
       \<and> length kv' = length kv \<and> length ke' = length ke"
proof (induction k arbitrary: idx kv ke)
  case 0
  then show ?case by simp
next
  case (Suc k)
  from Suc.prems have g: "idx < nP" "idx < length kv" "idx < length ke" "X idx \<noteq> NaN"
    "covarianceOk (Cov idx idx)" by simp_all
  from g(4) obtain x where x: "X idx = Num x" by (cases "X idx") auto
  from g(5) obtain c where c: "Cov idx idx = Num c" "\<not> c < 0"
    by (cases "Cov idx idx") auto
  from x c g(1,2,3)
  have step: "translateEntry nP X Cov (idx, kv, ke)
                = Inr (idx + 1, kv[idx := x], ke[idx := sqrt c])"
    by (simp add: translateEntry_def gsl_vector_get_def gsl_matrix_get_def)
  have "\<exists>kv' ke'. translateCols k nP X Cov (idx + 1, kv[idx := x], ke[idx := sqrt c])
                     = Inr (idx + 1 + k, kv', ke')
       \<and> length kv' = length (kv[idx := x]) \<and> length ke' = length (ke[idx := sqrt c])"
    using Suc.prems by (intro Suc.IH) simp
  with step show ?case by simp
qed

text \<open>
  The number of passes of the translation loops, and the length of the two vectors.
\<close>

lemma vector_length_le:
  "unat ((a :: 32 word) * b) \<le> unat a * unat b"
  by (simp add: unat_word_ariths)

lemma vector_length_exact:
  "unat (a :: 32 word) * unat (b :: 32 word) < 2 ^ 32 \<Longrightarrow> unat (a * b) = unat a * unat b"
  by (simp add: unat_word_ariths)

lemma translateSolution_Inr:
  assumes "translateSolution nP X Cov policy basis = Inr r"
  defines "P \<equiv> unat (of_int (kernelRows policy) :: 32 word) * unat (of_int (kernelCols policy) :: 32 word)"
  shows "P = length basis"
    and "kernelList (kernelPtr r) = basis"
    and "kernelList (kernelErrorPtr r) = basis"
    and "length (kernelParameters (kernelPtr r)) = P"
    and "\<forall>i < P. i < nP \<and> X i = Num (kernelParameters (kernelPtr r) ! i) \<and> covarianceOk (Cov i i)"
    and "kernelParameters (kernelErrorPtr r) = map (\<lambda>i. sqrt (num (Cov i i))) [0..<P]"
    and "background r = X (nP - 1)"
    and "covarianceOk (Cov (nP - 1) (nP - 1))"
    and "backgroundError r = sqrt (num (Cov (nP - 1) (nP - 1)))"
proof -
  let ?kC = "of_int (kernelCols policy) :: 32 word"
  let ?kR = "of_int (kernelRows policy) :: 32 word"
  let ?L = "unat (?kC * ?kR)"
  from assms(1) obtain idx kv ke where
    loop: "translateRows (unat ?kR) (unat ?kC) nP X Cov (0, replicate ?L 0, replicate ?L 0)
             = Inr (idx, kv, ke)"
    and after: "(case newLinearCombinationKernel basis kv of
                Inl e \<Rightarrow> Inl e
              | Inr newKernel \<Rightarrow>
                  (case newLinearCombinationKernel basis ke of
                     Inl e \<Rightarrow> Inl e
                   | Inr newKernelError \<Rightarrow>
                       (case gsl_matrix_get nP Cov (nP - 1) (nP - 1) of
                          Inl e \<Rightarrow> Inl e
                        | Inr NaN \<Rightarrow>
                            Inl (Exception ''Unable to determine kernel uncertainty (nan)'')
                        | Inr (Num c) \<Rightarrow>
                            if c < 0
                            then Inl (ExceptionFormat
                                   ''Unable to determine kernel uncertainty, negative variance (%.3e)'' c)
                            else Inr \<lparr>kernelPtr = newKernel, kernelErrorPtr = newKernelError,
                                      background = X (nP - 1),
                                      backgroundError = sqrt c\<rparr>))) = Inr r"
    by (auto simp: translateSolution_def Let_def split: sum.splits prod.splits)
  from loop have flat: "translateCols P nP X Cov (0, replicate ?L 0, replicate ?L 0) = Inr (idx, kv, ke)"
    by (simp add: translateRows_flat P_def)
  from translateCols_Inr [OF flat] have
    c: "length kv = ?L" "length ke = ?L"
       "\<forall>i. i < P \<longrightarrow> i < nP \<and> i < ?L \<and> X i = Num (kv ! i) \<and> covarianceOk (Cov i i)
              \<and> ke ! i = sqrt (num (Cov i i))"
    by simp_all
  have "?L \<le> P"
    unfolding P_def using vector_length_le [of ?kC ?kR] by (simp add: mult.commute)
  moreover have "P \<le> ?L"
  proof (cases P)
    case 0
    then show ?thesis by simp
  next
    case (Suc m)
    with c(3) have "m < ?L" by simp
    with Suc show ?thesis by simp
  qed
  ultimately have L: "?L = P" by simp
  from after obtain c' where
    k: "length basis = length kv" "length basis = length ke"
    and cov: "Cov (nP - 1) (nP - 1) = Num c'" "\<not> c' < 0"
    and r: "r = \<lparr>kernelPtr = \<lparr>kernelList = basis, kernelParameters = kv\<rparr>,
                kernelErrorPtr = \<lparr>kernelList = basis, kernelParameters = ke\<rparr>,
                background = X (nP - 1), backgroundError = sqrt c'\<rparr>"
    by (auto simp: newLinearCombinationKernel_def gsl_matrix_get_def
             split: if_splits sum.splits double.splits)
  show "P = length basis" using k c L by simp
  show "kernelList (kernelPtr r) = basis" by (simp add: r)
  show "kernelList (kernelErrorPtr r) = basis" by (simp add: r)
  show "length (kernelParameters (kernelPtr r)) = P" using c L by (simp add: r)
  show "\<forall>i < P. i < nP \<and> X i = Num (kernelParameters (kernelPtr r) ! i) \<and> covarianceOk (Cov i i)"
    using c(3) by (simp add: r)
  show "kernelParameters (kernelErrorPtr r) = map (\<lambda>i. sqrt (num (Cov i i))) [0..<P]"
    using c(2,3) L by (auto simp: r intro!: nth_equalityI)
  show "background r = X (nP - 1)" by (simp add: r)
  show "covarianceOk (Cov (nP - 1) (nP - 1))" using cov by simp
  show "backgroundError r = sqrt (num (Cov (nP - 1) (nP - 1)))" using cov by (simp add: r)
qed

lemma translateSolution_no_fault:
  assumes "unat (of_int (kernelRows policy) :: 32 word) * unat (of_int (kernelCols policy) :: 32 word)
             = length basis"
    and "length basis < 2 ^ 31"
    and "nP = length basis + 1"
    and "translateSolution nP X Cov policy basis = Inl e"
  shows "\<not> isFault e"
proof -
  let ?kC = "of_int (kernelCols policy) :: 32 word"
  let ?kR = "of_int (kernelRows policy) :: 32 word"
  let ?P = "length basis"
  have "unat ?kC * unat ?kR < 2 ^ 32"
    using assms(1,2) by (simp add: mult.commute)
  then have L: "unat (?kC * ?kR) = ?P"
    using assms(1) by (simp add: vector_length_exact mult.commute)
  have rng: "\<forall>i. 0 \<le> i \<and> i < 0 + ?P \<longrightarrow>
               i < nP \<and> i < length (replicate ?P (0::real)) \<and> i < length (replicate ?P (0::real))"
    using assms(3) by simp
  have flat: "translateRows (unat ?kR) (unat ?kC) nP X Cov s = translateCols ?P nP X Cov s" for s
    by (simp add: translateRows_flat assms(1))
  have last: "gsl_matrix_get nP Cov (nP - Suc 0) (nP - Suc 0) = Inr (Cov (nP - Suc 0) (nP - Suc 0))"
    using assms(3) by (simp add: gsl_matrix_get_def)
  show ?thesis
  proof (cases "translateCols ?P nP X Cov (0, replicate ?P 0, replicate ?P 0)")
    case (Inl e')
    with assms(4) have "e' = e"
      by (simp add: translateSolution_def Let_def L flat)
    with translateCols_no_fault [OF rng Inl] show ?thesis by simp
  next
    case (Inr s)
    obtain idx kv ke where s: "s = (idx, kv, ke)" by (cases s) auto
    from translateCols_Inr [OF Inr [unfolded s]]
    have len: "length kv = ?P" "length ke = ?P" by simp_all
    have k: "newLinearCombinationKernel basis kv = Inr \<lparr>kernelList = basis, kernelParameters = kv\<rparr>"
      "newLinearCombinationKernel basis ke = Inr \<lparr>kernelList = basis, kernelParameters = ke\<rparr>"
      by (simp_all add: newLinearCombinationKernel_def len)
    from assms(4) show ?thesis
      unfolding translateSolution_def Let_def L flat Inr s
      by (cases "Cov (nP - Suc 0) (nP - Suc 0)") (auto simp: k last split: if_splits)
  qed
qed

lemma translateSolution_valid_fault:
  assumes "\<forall>i. X i \<noteq> NaN \<and> covarianceOk (Cov i i)"
    and "translateSolution nP X Cov policy basis = Inl e"
  shows "isFault e"
proof -
  let ?kC = "of_int (kernelCols policy) :: 32 word"
  let ?kR = "of_int (kernelRows policy) :: 32 word"
  let ?L = "unat (?kC * ?kR)"
  let ?P = "unat ?kR * unat ?kC"
  have flat: "translateRows (unat ?kR) (unat ?kC) nP X Cov s = translateCols ?P nP X Cov s" for s
    by (simp add: translateRows_flat)
  from assms(1) obtain c where c: "Cov (nP - Suc 0) (nP - Suc 0) = Num c" "\<not> c < 0"
    by (cases "Cov (nP - Suc 0) (nP - Suc 0)") (auto dest: spec [of _ "nP - Suc 0"])
  show ?thesis
  proof (cases "translateCols ?P nP X Cov (0, replicate ?L 0, replicate ?L 0)")
    case (Inl e')
    with assms(2) have "e' = e"
      by (simp add: translateSolution_def Let_def flat)
    with translateCols_valid [of X Cov ?P nP _ e'] assms(1) Inl show ?thesis by blast
  next
    case (Inr s)
    obtain idx kv ke where s: "s = (idx, kv, ke)" by (cases s) auto
    from assms(2) show ?thesis
      by (auto simp: translateSolution_def Let_def flat Inr s c
            newLinearCombinationKernel_def gsl_matrix_get_def
            split: if_splits)
  qed
qed

subsection \<open>The output shape and the basis\<close>

text \<open>
  C9. The translation loops make \<open>kernelCols * kernelRows\<close> passes over the solution of
  \<open>|basis| + 1\<close> entries, whatever the basis is. When that product equals \<open>|basis|\<close>
  (which the solver holds in an \<^verbatim>\<open>int\<close>), no access and no construction faults. The
  translation returns a result only when the product equals \<open>|basis|\<close>. Nothing checks
  the equality: with entries that pass every check and a product different from
  \<open>|basis|\<close>, the run ends in a fault of an access or of the construction of the
  output kernel.
\<close>

theorem translateSolution_shape_precondition:
  assumes "length basis < 2 ^ 31"
  shows "(outputKernelSize policy = length basis \<longrightarrow>
            (\<forall>e. translateSolution (length basis + 1) X Cov policy basis = Inl e \<longrightarrow> \<not> isFault e))
       \<and> ((\<exists>r. translateSolution (length basis + 1) X Cov policy basis = Inr r) \<longrightarrow>
            outputKernelSize policy = length basis)
       \<and> ((\<forall>i. X i \<noteq> NaN \<and> covarianceOk (Cov i i)) \<and> outputKernelSize policy \<noteq> length basis \<longrightarrow>
            (\<exists>e. translateSolution (length basis + 1) X Cov policy basis = Inl e \<and> isFault e))"
proof (intro conjI impI allI)
  fix e
  assume "outputKernelSize policy = length basis"
    and "translateSolution (length basis + 1) X Cov policy basis = Inl e"
  then show "\<not> isFault e"
    using assms by (intro translateSolution_no_fault [of policy basis _ X Cov e])
      (simp_all add: outputKernelSize_def)
next
  assume "\<exists>r. translateSolution (length basis + 1) X Cov policy basis = Inr r"
  then obtain r where "translateSolution (length basis + 1) X Cov policy basis = Inr r" ..
  from translateSolution_Inr(1) [OF this] show "outputKernelSize policy = length basis"
    by (simp add: outputKernelSize_def)
next
  assume a: "(\<forall>i. X i \<noteq> NaN \<and> covarianceOk (Cov i i)) \<and> outputKernelSize policy \<noteq> length basis"
  show "\<exists>e. translateSolution (length basis + 1) X Cov policy basis = Inl e \<and> isFault e"
  proof (cases "translateSolution (length basis + 1) X Cov policy basis")
    case (Inl e)
    with translateSolution_valid_fault [of X Cov _ policy basis e] a show ?thesis by blast
  next
    case (Inr r)
    from translateSolution_Inr(1) [OF Inr] a show ?thesis
      by (simp add: outputKernelSize_def)
  qed
qed

text \<open>
  With a basis of one kernel: the \<open>1 \<times> 1\<close> shape gives a result, the \<open>2 \<times> 1\<close> shape
  ends in the construction of a kernel from two coefficients, and the \<open>3 \<times> 1\<close> shape
  ends in the read of \<open>X[2]\<close>.
\<close>

theorem translateSolution_shape_precondition_witness:
  "outputKernelSize (kernel_policy 1 1) = length [plain_kernel 1 1 0 0]
   \<and> translateSolution 2 ones (fours_but 9 (Num 4)) (kernel_policy 1 1) [plain_kernel 1 1 0 0]
       = Inr \<lparr>kernelPtr = \<lparr>kernelList = [plain_kernel 1 1 0 0], kernelParameters = [1]\<rparr>,
              kernelErrorPtr = \<lparr>kernelList = [plain_kernel 1 1 0 0], kernelParameters = [2]\<rparr>,
              background = Num 1, backgroundError = 2\<rparr>
   \<and> translateSolution 2 ones (fours_but 9 (Num 4)) (kernel_policy 2 1) [plain_kernel 1 1 0 0]
       = Inl InvalidParameter
   \<and> translateSolution 2 ones (fours_but 9 (Num 4)) (kernel_policy 3 1) [plain_kernel 1 1 0 0]
       = Inl GslIndexOutOfRange
   \<and> (\<exists>e. translateSolution 2 ones (fours_but 9 (Num 4)) (kernel_policy 2 1) [plain_kernel 1 1 0 0]
            = Inl e \<and> isFault e)"
proof -
  let ?b = "[plain_kernel 1 1 0 0]" and ?C = "fours_but 9 (Num 4)"
  have n: "length ?b < 2 ^ 31" by simp
  have valid: "\<forall>i. ones i \<noteq> NaN \<and> covarianceOk (?C i i)"
    by (simp add: ones_def fours_but_def)
  have s1: "outputKernelSize (kernel_policy 1 1) = length ?b"
    by (simp add: outputKernelSize_def kernel_policy_def)
  have s2: "outputKernelSize (kernel_policy 2 1) \<noteq> length ?b"
    by (simp add: outputKernelSize_def kernel_policy_def)
  have r1: "translateSolution 2 ones ?C (kernel_policy 1 1) ?b
       = Inr \<lparr>kernelPtr = \<lparr>kernelList = ?b, kernelParameters = [1]\<rparr>,
              kernelErrorPtr = \<lparr>kernelList = ?b, kernelParameters = [2]\<rparr>,
              background = Num 1, backgroundError = 2\<rparr>"
    by (simp add: translateSolution_def kernel_policy_def translateEntry_def gsl_vector_get_def
          gsl_matrix_get_def ones_def fours_but_def newLinearCombinationKernel_def)
  have sz2: "unat (of_int (kernelCols (kernel_policy 2 1)) :: 32 word) = Suc (Suc 0)"
    "unat (of_int (kernelRows (kernel_policy 2 1)) :: 32 word) = Suc 0"
    "unat (of_int (kernelCols (kernel_policy 2 1)) * of_int (kernelRows (kernel_policy 2 1)) :: 32 word)
       = Suc (Suc 0)"
    by (simp_all add: kernel_policy_def)
  have r2: "translateSolution 2 ones ?C (kernel_policy 2 1) ?b = Inl InvalidParameter"
    unfolding translateSolution_def Let_def sz2
    by (simp add: translateEntry_def gsl_vector_get_def gsl_matrix_get_def ones_def
          fours_but_def newLinearCombinationKernel_def)
  have sz3: "unat (of_int (kernelCols (kernel_policy 3 1)) :: 32 word) = Suc (Suc (Suc 0))"
    "unat (of_int (kernelRows (kernel_policy 3 1)) :: 32 word) = Suc 0"
    "unat (of_int (kernelCols (kernel_policy 3 1)) * of_int (kernelRows (kernel_policy 3 1)) :: 32 word)
       = Suc (Suc (Suc 0))"
    by (simp_all add: kernel_policy_def)
  have r3: "translateSolution 2 ones ?C (kernel_policy 3 1) ?b = Inl GslIndexOutOfRange"
    unfolding translateSolution_def Let_def sz3
    by (simp add: translateEntry_def gsl_vector_get_def gsl_matrix_get_def ones_def
          fours_but_def newLinearCombinationKernel_def)
  from translateSolution_shape_precondition [OF n, of "kernel_policy 2 1" ones ?C] valid s2
  have "\<exists>e. translateSolution (length ?b + 1) ones ?C (kernel_policy 2 1) ?b = Inl e \<and> isFault e"
    by blast
  moreover have "length ?b + 1 = 2" by simp
  ultimately have f: "\<exists>e. translateSolution 2 ones ?C (kernel_policy 2 1) ?b = Inl e \<and> isFault e"
    by (simp only:)
  from s1 r1 r2 r3 f show ?thesis by blast
qed

subsection \<open>The exceptions of the covariance checks\<close>

lemma covarianceError_kind: "\<not> covarianceOk v \<Longrightarrow> fitErrorFor v (covarianceError v)"
  by (cases v) simp_all

lemma translateEntry_Inl:
  assumes "translateEntry nP X Cov (idx, kv, ke) = Inl e"
  shows "isFault e \<or> e = Exception ''Unable to determine kernel solution (nan)''
         \<or> (idx < nP \<and> \<not> covarianceOk (Cov idx idx) \<and> e = covarianceError (Cov idx idx))"
  using assms
  by (auto simp: translateEntry_def gsl_vector_get_def gsl_matrix_get_def
           split: if_splits sum.splits double.splits)

lemma translateCols_Inl:
  assumes "translateCols k nP X Cov s = Inl e"
  shows "isFault e \<or> e = Exception ''Unable to determine kernel solution (nan)''
         \<or> (\<exists>i<nP. \<not> covarianceOk (Cov i i) \<and> e = covarianceError (Cov i i))"
  using assms
proof (induction k arbitrary: s)
  case 0
  then show ?case by simp
next
  case (Suc k)
  obtain idx kv ke where s: "s = (idx, kv, ke)" by (cases s) auto
  show ?case
  proof (cases "translateEntry nP X Cov s")
    case (Inl e')
    with Suc.prems have "e' = e" by simp
    with translateEntry_Inl [of nP X Cov idx kv ke e] Inl s show ?thesis by blast
  next
    case (Inr s1)
    with Suc.prems have "translateCols k nP X Cov s1 = Inl e" by simp
    then show ?thesis by (rule Suc.IH)
  qed
qed

lemma translateSolution_Inl:
  assumes "translateSolution nP X Cov policy basis = Inl e"
  shows "isFault e \<or> e = Exception ''Unable to determine kernel solution (nan)''
         \<or> (\<exists>i<nP. \<not> covarianceOk (Cov i i) \<and> e = covarianceError (Cov i i))"
proof -
  let ?kC = "of_int (kernelCols policy) :: 32 word"
  let ?kR = "of_int (kernelRows policy) :: 32 word"
  let ?L = "unat (?kC * ?kR)"
  let ?P = "unat ?kR * unat ?kC"
  have flat: "translateRows (unat ?kR) (unat ?kC) nP X Cov s = translateCols ?P nP X Cov s" for s
    by (simp add: translateRows_flat)
  show ?thesis
  proof (cases "translateCols ?P nP X Cov (0, replicate ?L 0, replicate ?L 0)")
    case (Inl e')
    with assms have "e' = e"
      by (simp add: translateSolution_def Let_def flat)
    with translateCols_Inl [OF Inl] show ?thesis by simp
  next
    case (Inr s)
    obtain idx kv ke where s: "s = (idx, kv, ke)" by (cases s) auto
    show ?thesis
    proof (cases "nP - Suc 0 < nP")
      case False
      with assms have "e = GslIndexOutOfRange \<or> e = InvalidParameter"
        by (auto simp: translateSolution_def Let_def flat Inr s
              newLinearCombinationKernel_def gsl_matrix_get_def split: if_splits)
      then show ?thesis by auto
    next
      case True
      with assms have "e = InvalidParameter
          \<or> (\<not> covarianceOk (Cov (nP - Suc 0) (nP - Suc 0))
              \<and> e = covarianceError (Cov (nP - Suc 0) (nP - Suc 0)))"
        by (auto simp: translateSolution_def Let_def flat Inr s
              newLinearCombinationKernel_def gsl_matrix_get_def
              split: if_splits double.splits)
      with True show ?thesis by auto
    qed
  qed
qed

lemma translateSolution_kernel_entry:
  assumes N: "i < outputKernelSize policy"
    and L: "i \<le> vectorSize policy"
    and n: "i < nP"
    and before: "\<forall>j<i. X j \<noteq> NaN \<and> covarianceOk (Cov j j)"
    and xi: "X i \<noteq> NaN"
    and bad: "\<not> covarianceOk (Cov i i)"
  shows "translateSolution nP X Cov policy basis = Inl (covarianceError (Cov i i))"
proof -
  let ?kC = "of_int (kernelCols policy) :: 32 word"
  let ?kR = "of_int (kernelRows policy) :: 32 word"
  let ?L = "unat (?kC * ?kR)"
  let ?P = "unat ?kR * unat ?kC"
  have flat: "translateRows (unat ?kR) (unat ?kC) nP X Cov s = translateCols ?P nP X Cov s" for s
    by (simp add: translateRows_flat)
  have "translateCols ?P nP X Cov (0, replicate ?L 0, replicate ?L 0)
          = Inl (covarianceError (Cov i i))"
    using N L n before xi bad
    by (intro translateCols_first_failure) (simp_all add: outputKernelSize_def vectorSize_def)
  then show ?thesis
    unfolding translateSolution_def Let_def flat by simp
qed

lemma translateSolution_background_entry:
  assumes P: "outputKernelSize policy = length basis"
    and V: "vectorSize policy = length basis"
    and n: "length basis < nP"
    and before: "\<forall>j<length basis. X j \<noteq> NaN \<and> covarianceOk (Cov j j)"
    and bad: "\<not> covarianceOk (Cov (nP - 1) (nP - 1))"
  shows "translateSolution nP X Cov policy basis = Inl (covarianceError (Cov (nP - 1) (nP - 1)))"
proof -
  let ?kC = "of_int (kernelCols policy) :: 32 word"
  let ?kR = "of_int (kernelRows policy) :: 32 word"
  let ?P = "length basis"
  have PP: "unat ?kR * unat ?kC = ?P"
    using P by (simp add: outputKernelSize_def)
  have L: "unat (?kC * ?kR) = ?P"
    using V by (simp add: vectorSize_def)
  have flat: "translateRows (unat ?kR) (unat ?kC) nP X Cov s = translateCols ?P nP X Cov s" for s
    by (simp add: translateRows_flat PP)
  have "\<exists>kv' ke'. translateCols ?P nP X Cov (0, replicate ?P 0, replicate ?P 0)
                     = Inr (0 + ?P, kv', ke')
          \<and> length kv' = length (replicate ?P (0::real))
          \<and> length ke' = length (replicate ?P (0::real))"
    using before n by (intro translateCols_good) simp
  then obtain kv ke where
    loop: "translateCols ?P nP X Cov (0, replicate ?P 0, replicate ?P 0) = Inr (?P, kv, ke)"
    and len: "length kv = ?P" "length ke = ?P"
    by auto
  have k: "newLinearCombinationKernel basis kv = Inr \<lparr>kernelList = basis, kernelParameters = kv\<rparr>"
    "newLinearCombinationKernel basis ke = Inr \<lparr>kernelList = basis, kernelParameters = ke\<rparr>"
    by (simp_all add: newLinearCombinationKernel_def len)
  have last: "gsl_matrix_get nP Cov (nP - Suc 0) (nP - Suc 0) = Inr (Cov (nP - Suc 0) (nP - Suc 0))"
    using n by (simp add: gsl_matrix_get_def)
  from bad show ?thesis
    unfolding translateSolution_def Let_def L flat loop
    by (cases "Cov (nP - 1) (nP - 1)") (simp_all add: k last)
qed

text \<open>
  C7, amended. Whenever the first check that fails is the covariance check of a kernel
  entry \<open>i\<close> (the loops reach it: \<open>i\<close> is below the number of passes, the entries before
  it were stored, and all checks before it passed), the solver raises the exception of
  that entry's value, whatever the shape and the basis are: "Unable to determine kernel
  uncertainty (nan)" for a not-a-number, and "Unable to determine kernel uncertainty,
  negative variance" with the value formatted into it for a negative number. Whenever all
  kernel entries pass, the kernels are built and the background entry fails its check,
  the solver raises an exception of the same kind: one without an argument for a
  not-a-number, one with the value for a negative number. Every error of the translation
  that is neither a fault nor the exception of a not-a-number solution is such an
  exception for some diagonal entry. In each case the exception is determined by the
  value of the entry and does not carry its index.
\<close>

theorem translateSolution_covariance_error:
  "(\<forall>i. i < outputKernelSize policy \<and> i \<le> vectorSize policy \<and> i < nP
         \<and> (\<forall>j<i. X j \<noteq> NaN \<and> covarianceOk (Cov j j))
         \<and> X i \<noteq> NaN \<and> \<not> covarianceOk (Cov i i)
      \<longrightarrow> translateSolution nP X Cov policy basis = Inl (covarianceError (Cov i i)))
   \<and> (outputKernelSize policy = length basis \<and> vectorSize policy = length basis
        \<and> length basis < nP
        \<and> (\<forall>j<length basis. X j \<noteq> NaN \<and> covarianceOk (Cov j j))
        \<and> \<not> covarianceOk (Cov (nP - 1) (nP - 1))
      \<longrightarrow> (\<exists>e. translateSolution nP X Cov policy basis = Inl e
               \<and> fitErrorFor (Cov (nP - 1) (nP - 1)) e))
   \<and> (\<forall>e. translateSolution nP X Cov policy basis = Inl e
      \<longrightarrow> isFault e \<or> e = Exception ''Unable to determine kernel solution (nan)''
          \<or> (\<exists>i<nP. \<not> covarianceOk (Cov i i) \<and> fitErrorFor (Cov i i) e))"
proof (intro conjI allI impI)
  fix i
  assume "i < outputKernelSize policy \<and> i \<le> vectorSize policy \<and> i < nP
         \<and> (\<forall>j<i. X j \<noteq> NaN \<and> covarianceOk (Cov j j))
         \<and> X i \<noteq> NaN \<and> \<not> covarianceOk (Cov i i)"
  then show "translateSolution nP X Cov policy basis = Inl (covarianceError (Cov i i))"
    by (intro translateSolution_kernel_entry) simp_all
next
  assume h: "outputKernelSize policy = length basis \<and> vectorSize policy = length basis
        \<and> length basis < nP
        \<and> (\<forall>j<length basis. X j \<noteq> NaN \<and> covarianceOk (Cov j j))
        \<and> \<not> covarianceOk (Cov (nP - 1) (nP - 1))"
  then have "translateSolution nP X Cov policy basis
               = Inl (covarianceError (Cov (nP - 1) (nP - 1)))"
    by (intro translateSolution_background_entry) simp_all
  moreover from h have "fitErrorFor (Cov (nP - 1) (nP - 1)) (covarianceError (Cov (nP - 1) (nP - 1)))"
    by (intro covarianceError_kind) simp
  ultimately show "\<exists>e. translateSolution nP X Cov policy basis = Inl e
               \<and> fitErrorFor (Cov (nP - 1) (nP - 1)) e"
    by blast
next
  fix e
  assume "translateSolution nP X Cov policy basis = Inl e"
  from translateSolution_Inl [OF this]
  show "isFault e \<or> e = Exception ''Unable to determine kernel solution (nan)''
          \<or> (\<exists>i<nP. \<not> covarianceOk (Cov i i) \<and> fitErrorFor (Cov i i) e)"
    using covarianceError_kind by blast
qed

lemma sizes_two_by_one:
  "unat (of_int (kernelCols (kernel_policy 2 1)) :: 32 word) = Suc (Suc 0)"
  "unat (of_int (kernelRows (kernel_policy 2 1)) :: 32 word) = Suc 0"
  "unat (of_int (kernelCols (kernel_policy 2 1)) * of_int (kernelRows (kernel_policy 2 1)) :: 32 word)
     = Suc (Suc 0)"
  by (simp_all add: kernel_policy_def)

text \<open>
  Three runs on a basis of two kernels, with three parameters. With the \<open>1 \<times> 1\<close>
  shape, which does not match the basis, a not-a-number covariance of the parameter 0
  raises the not-a-number exception. With the \<open>2 \<times> 1\<close> shape, a covariance of
  \<open>-1\<close> for the parameter 1 raises the negative-variance exception with \<open>-1\<close>, and
  a covariance of \<open>-1\<close> for the background (the parameter 2) raises an exception that
  carries \<open>-1\<close>.
\<close>

theorem translateSolution_covariance_error_witness:
  "translateSolution 3 ones (fours_but 0 NaN) (kernel_policy 1 1)
       [plain_kernel 1 1 0 0, plain_kernel 1 1 0 0]
     = Inl (Exception ''Unable to determine kernel uncertainty (nan)'')
   \<and> translateSolution 3 ones (fours_but 1 (Num (- 1))) (kernel_policy 2 1)
       [plain_kernel 1 1 0 0, plain_kernel 1 1 0 0]
     = Inl (ExceptionFormat
             ''Unable to determine kernel uncertainty, negative variance (%.3e)'' (- 1))
   \<and> (\<exists>e. translateSolution 3 ones (fours_but 2 (Num (- 1))) (kernel_policy 2 1)
            [plain_kernel 1 1 0 0, plain_kernel 1 1 0 0] = Inl e
          \<and> fitErrorFor (Num (- 1)) e)"
proof -
  let ?b = "[plain_kernel 1 1 0 0, plain_kernel 1 1 0 0]"
  have s1: "outputKernelSize (kernel_policy 1 1) = 1" "vectorSize (kernel_policy 1 1) = 1"
    by (simp_all add: outputKernelSize_def vectorSize_def kernel_policy_def)
  have s2: "outputKernelSize (kernel_policy 2 1) = 2" "vectorSize (kernel_policy 2 1) = 2"
    by (simp_all add: outputKernelSize_def vectorSize_def kernel_policy_def)
  have a: "translateSolution 3 ones (fours_but 0 NaN) (kernel_policy 1 1) ?b
             = Inl (covarianceError (fours_but 0 NaN 0 0))"
    by (rule translateSolution_covariance_error
              [of "kernel_policy 1 1" 3 ones "fours_but 0 NaN" ?b,
               THEN conjunct1, rule_format, of 0])
       (simp add: s1 ones_def fours_but_def)
  have b: "translateSolution 3 ones (fours_but 1 (Num (- 1))) (kernel_policy 2 1) ?b
             = Inl (covarianceError (fours_but 1 (Num (- 1)) 1 1))"
    by (rule translateSolution_covariance_error
              [of "kernel_policy 2 1" 3 ones "fours_but 1 (Num (- 1))" ?b,
               THEN conjunct1, rule_format, of 1])
       (simp add: s2 ones_def fours_but_def)
  have c: "\<exists>e. translateSolution 3 ones (fours_but 2 (Num (- 1))) (kernel_policy 2 1) ?b = Inl e
               \<and> fitErrorFor (fours_but 2 (Num (- 1)) (3 - 1) (3 - 1)) e"
    by (rule translateSolution_covariance_error
              [of "kernel_policy 2 1" 3 ones "fours_but 2 (Num (- 1))" ?b,
               THEN conjunct2, THEN conjunct1, rule_format])
       (simp add: s2 ones_def fours_but_def less_Suc_eq)
  from a b c show ?thesis
    by (simp add: fours_but_def)
qed

text \<open>
  C7, as stated, on the basis of two kernels and the \<open>2 \<times> 1\<close> shape: a not-a-number
  covariance of the parameter 0 and one of the parameter 1 raise the same exception, so
  the exception does not tell which parameter failed.
\<close>

theorem translateSolution_covariance_error_counterexample:
  "translateSolution 3 ones (fours_but 0 NaN) (kernel_policy 2 1)
       [plain_kernel 1 1 0 0, plain_kernel 1 1 0 0]
     = Inl (Exception ''Unable to determine kernel uncertainty (nan)'')
   \<and> translateSolution 3 ones (fours_but 1 NaN) (kernel_policy 2 1)
       [plain_kernel 1 1 0 0, plain_kernel 1 1 0 0]
     = Inl (Exception ''Unable to determine kernel uncertainty (nan)'')"
  unfolding translateSolution_def Let_def sizes_two_by_one
  by (simp add: translateEntry_def gsl_vector_get_def gsl_matrix_get_def ones_def
        fours_but_def newLinearCombinationKernel_def)

subsection \<open>The error outputs\<close>

text \<open>
  C1. Whenever the solver returns, the coefficients of the error kernel are the square
  roots of the diagonal of \<open>Cov\<close> and \<open>backgroundError\<close> is the square root of its last
  diagonal entry, where \<open>Cov\<close> is the block as it was allocated: the error outputs are
  the same for every image, every basis convolution and every solution of the normal
  equations.
\<close>

theorem solver_error_outputs_from_unwritten_block:
  assumes "computePsfMatchingKernelForFootprint convolve svdSolve Cov
             imageToConvolve imageToNotConvolve varianceImage basis policy = Inr r"
  shows "kernelParameters (kernelErrorPtr r) = map (\<lambda>i. sqrt (num (Cov i i))) [0..<length basis]
       \<and> backgroundError r = sqrt (num (Cov (length basis) (length basis)))"
proof -
  from assms obtain X where
    t: "translateSolution (length basis + 1) X Cov policy basis = Inr r"
    by (auto simp: computePsfMatchingKernelForFootprint_def Let_def split: sum.splits prod.splits)
  from translateSolution_Inr(1,6,9) [OF t] show ?thesis by simp
qed

lemma window_two_rows_convolved:
  "solverWindow [plain_kernel 2 1 0 0]
     (map (convolvedImage flat_convolve (flat_image 2 2)) [plain_kernel 2 1 0 0])
     = Inr \<lparr>startCol = 0, startRow = 0, endCol = 1, endRow = 2\<rparr>"
  by (simp add: solverWindow_def accumulationWindow_def plain_kernel_def flat_image_def
        convolvedImage_def)

lemma sizes_one_by_one:
  "unat (of_int (kernelCols (kernel_policy 1 1)) :: 32 word) = Suc 0"
  "unat (of_int (kernelRows (kernel_policy 1 1)) :: 32 word) = Suc 0"
  "unat (of_int (kernelCols (kernel_policy 1 1)) * of_int (kernelRows (kernel_policy 1 1)) :: 32 word)
     = Suc 0"
  by (simp_all add: kernel_policy_def)

lemma solver_run:
  "computePsfMatchingKernelForFootprint flat_convolve identity_solve (fours_but 9 (Num 4))
     (flat_image 2 2) (grid_image [[1, 0], [2, 5]] 1) (grid_image [[0, 0], [0, 0]] var)
     [plain_kernel 2 1 0 0] (kernel_policy 1 1)
   = Inr \<lparr>kernelPtr = \<lparr>kernelList = [plain_kernel 2 1 0 0], kernelParameters = [6 / var]\<rparr>,
          kernelErrorPtr = \<lparr>kernelList = [plain_kernel 2 1 0 0], kernelParameters = [2]\<rparr>,
          background = Num (6 / var), backgroundError = 2\<rparr>"
  unfolding computePsfMatchingKernelForFootprint_def Let_def window_two_rows_convolved
    translateSolution_def sizes_one_by_one
  by (simp add: scanWindow_def loopIndices_small scanPixel_def locate_def readConvolved_def
        grid_image_def flat_image_def px_def accumulatePixel_def accumulateRow_def
        matrix_add_def vector_add_def convolvedImage_def flat_convolve_def identity_solve_def
        translateEntry_def gsl_vector_get_def gsl_matrix_get_def fours_but_def
        newLinearCombinationKernel_def)

text \<open>
  Two runs that differ in the variance image alone (variance 1 and variance 100 at every
  pixel), with the allocated block holding 4 in every entry and with \<open>identity_solve\<close>
  in the place of the GSL steps. The coefficient and the background are what this
  stand-in returns, \<open>B\<close> itself (6 and \<open>6 / 100\<close>; the GSL steps would return the
  solution of \<open>M x = B\<close>, other numbers), and they change with the weights; the error
  kernel and \<open>backgroundError\<close> are 2 in both runs.
\<close>

theorem solver_error_outputs_from_unwritten_block_witness:
  "computePsfMatchingKernelForFootprint flat_convolve identity_solve (fours_but 9 (Num 4))
     (flat_image 2 2) (grid_image [[1, 0], [2, 5]] 1) (grid_image [[0, 0], [0, 0]] 1)
     [plain_kernel 2 1 0 0] (kernel_policy 1 1)
   = Inr \<lparr>kernelPtr = \<lparr>kernelList = [plain_kernel 2 1 0 0], kernelParameters = [6 / 1]\<rparr>,
          kernelErrorPtr = \<lparr>kernelList = [plain_kernel 2 1 0 0], kernelParameters = [2]\<rparr>,
          background = Num (6 / 1), backgroundError = 2\<rparr>
   \<and> computePsfMatchingKernelForFootprint flat_convolve identity_solve (fours_but 9 (Num 4))
     (flat_image 2 2) (grid_image [[1, 0], [2, 5]] 1) (grid_image [[0, 0], [0, 0]] 100)
     [plain_kernel 2 1 0 0] (kernel_policy 1 1)
   = Inr \<lparr>kernelPtr = \<lparr>kernelList = [plain_kernel 2 1 0 0], kernelParameters = [6 / 100]\<rparr>,
          kernelErrorPtr = \<lparr>kernelList = [plain_kernel 2 1 0 0], kernelParameters = [2]\<rparr>,
          background = Num (6 / 100), backgroundError = 2\<rparr>
   \<and> map (\<lambda>i. sqrt (num (fours_but 9 (Num 4) i i))) [0..<length [plain_kernel 2 1 0 0]] = [2]
   \<and> sqrt (num (fours_but 9 (Num 4) (length [plain_kernel 2 1 0 0])
                  (length [plain_kernel 2 1 0 0]))) = 2"
proof -
  note r1 = solver_run [of 1] and r2 = solver_run [of 100]
  from solver_error_outputs_from_unwritten_block [OF r1]
  have "map (\<lambda>i. sqrt (num (fours_but 9 (Num 4) i i))) [0..<length [plain_kernel 2 1 0 0]] = [2]
        \<and> sqrt (num (fours_but 9 (Num 4) (length [plain_kernel 2 1 0 0])
                  (length [plain_kernel 2 1 0 0]))) = 2"
    by simp
  with r1 r2 show ?thesis by blast
qed

section \<open>Properties of the selection of footprints\<close>

lemma checkFootprint_step:
  "checkFootprint ext a b p (acc, n) fp =
     (if isAccepted ext a b p fp
      then (acc @ [growFootprint ext fp (of_int (footprintDiffimGrow p))], n + 1)
      else (acc, n))"
  by (auto simp: checkFootprint_def isAccepted_def Let_def word_greater_zero_iff not_less
           split: sum.splits)

lemma foldl_checkFootprint:
  "foldl (checkFootprint ext a b p) (acc, n) fps =
     (acc @ map (\<lambda>i. growFootprint ext i (of_int (footprintDiffimGrow p)))
              (filter (isAccepted ext a b p) fps),
      n + of_nat (length (filter (isAccepted ext a b p) fps)))"
  by (induction fps arbitrary: acc n) (simp_all add: checkFootprint_step)

lemma detectionPass_eq:
  "detectionPass ext a b p t =
     (acceptedRegions ext a b p t, of_nat (length (acceptedRegions ext a b p t)))"
  by (simp add: detectionPass_def foldl_checkFootprint acceptedRegions_def)

lemma selectionLoop_stops:
  assumes "\<not> continuesAfter arith ext a b p m"
  shows "selectionLoop arith ext a b p (of_nat (length (listAfter arith ext a b p m)))
           (thresholdAfter arith p m) (listAfter arith ext a b p m)
         = Some (listAfter arith ext a b p m)"
  using assms by (subst selectionLoop.simps) (auto simp: continuesAfter_def)

lemma selectionLoop_passes:
  assumes "continuesAfter arith ext a b p m"
  shows "selectionLoop arith ext a b p (of_nat (length (listAfter arith ext a b p m)))
           (thresholdAfter arith p m) (listAfter arith ext a b p m)
         = selectionLoop arith ext a b p (of_nat (length (listAfter arith ext a b p (Suc m))))
             (thresholdAfter arith p (Suc m)) (listAfter arith ext a b p (Suc m))"
  using assms
  by (subst selectionLoop.simps) (simp add: continuesAfter_def detectionPass_eq)

lemma selectionLoop_returns:
  assumes "\<forall>k<j. continuesAfter arith ext a b p (m + k)"
    and "\<not> continuesAfter arith ext a b p (m + j)"
  shows "selectionLoop arith ext a b p (of_nat (length (listAfter arith ext a b p m)))
           (thresholdAfter arith p m) (listAfter arith ext a b p m)
         = Some (listAfter arith ext a b p (m + j))"
  using assms
proof (induction j arbitrary: m)
  case 0
  then show ?case by (simp add: selectionLoop_stops)
next
  case (Suc j)
  from Suc.prems(1) have now: "continuesAfter arith ext a b p m"
    by (metis add.right_neutral zero_less_Suc)
  have later: "\<forall>k<j. continuesAfter arith ext a b p (Suc m + k)"
  proof (intro allI impI)
    fix k assume "k < j"
    then have "Suc k < Suc j" by simp
    with Suc.prems(1) have "continuesAfter arith ext a b p (m + Suc k)" by blast
    then show "continuesAfter arith ext a b p (Suc m + k)" by simp
  qed
  from Suc.prems(2) have stop: "\<not> continuesAfter arith ext a b p (Suc m + j)" by simp
  from Suc.IH [OF later stop] show ?case
    by (simp add: selectionLoop_passes [OF now])
qed

lemma selectionLoop_never_returns:
  assumes "selectionLoop arith ext a b p n t out = Some r"
  shows "\<not> ((\<forall>k. continuesAfter arith ext a b p k)
            \<and> (\<exists>m. n = of_nat (length (listAfter arith ext a b p m))
                     \<and> t = thresholdAfter arith p m))"
proof (induction rule: selectionLoop.raw_induct [OF _ assms])
  case (1 loop arith ext a b p n t out r)
  show ?case
  proof
    assume inv: "(\<forall>k. continuesAfter arith ext a b p k)
            \<and> (\<exists>m. n = of_nat (length (listAfter arith ext a b p m))
                     \<and> t = thresholdAfter arith p m)"
    then obtain m where m: "n = of_nat (length (listAfter arith ext a b p m))"
      "t = thresholdAfter arith p m" by blast
    from inv have "continuesAfter arith ext a b p m" by blast
    then have go: "sint n < minimumCleanFootprints p
        \<and> greaterThan arith t (minimumDetectionThreshold p)"
      by (simp add: continuesAfter_def m)
    from 1(2) go
    have "loop arith ext a b p (of_nat (length (listAfter arith ext a b p (Suc m))))
            (thresholdAfter arith p (Suc m)) (listAfter arith ext a b p (Suc m)) = Some r"
      by (simp add: detectionPass_eq m)
    from 1(1) [OF this] inv show False
      by blast
  qed
qed

lemma getCollection_returns:
  assumes "\<forall>k<j. continuesAfter arith ext a b p k"
    and "\<not> continuesAfter arith ext a b p j"
  shows "getCollectionOfFootprintsForPsfMatching arith ext a b p
         = Some (listAfter arith ext a b p j)"
  using selectionLoop_returns [of j arith ext a b p 0] assms
  by (simp add: getCollectionOfFootprintsForPsfMatching_def)

lemma getCollection_never_returns:
  assumes "\<forall>k. continuesAfter arith ext a b p k"
  shows "getCollectionOfFootprintsForPsfMatching arith ext a b p = None"
proof (cases "getCollectionOfFootprintsForPsfMatching arith ext a b p")
  case None
  then show ?thesis .
next
  case (Some r)
  then have "selectionLoop arith ext a b p 0 (footprintDetectionThreshold p) [] = Some r"
    by (simp add: getCollectionOfFootprintsForPsfMatching_def)
  from selectionLoop_never_returns [OF this] assms
  have "\<not> (\<exists>m. (0 :: 32 word) = of_nat (length (listAfter arith ext a b p m))
                \<and> footprintDetectionThreshold p = thresholdAfter arith p m)"
    by blast
  moreover have "(0 :: 32 word) = of_nat (length (listAfter arith ext a b p 0))
                \<and> footprintDetectionThreshold p = thresholdAfter arith p 0"
    by simp
  ultimately show ?thesis by blast
qed

lemma listAfter_extracted:
  assumes "fp \<in> set (listAfter arith ext a b p j)"
  shows "\<exists>subImages. extractBoth ext a b (getBBox fp) = Inr subImages"
proof (cases j)
  case 0
  with assms show ?thesis by simp
next
  case (Suc k)
  with assms obtain i where "isAccepted ext a b p i"
    and "fp = growFootprint ext i (of_int (footprintDiffimGrow p))"
    by (auto simp: acceptedRegions_def)
  then show ?thesis
    by (auto simp: isAccepted_def Let_def split: sum.splits)
qed

text \<open>
  C8, amended. The call returns exactly when the test of the loop fails after some number
  of passes: at the first \<open>j\<close> for which, after \<open>j\<close> passes, the last pass accepted
  \<open>minimumCleanFootprints\<close> regions or the threshold (the policy's threshold multiplied
  \<open>j\<close> times by the scaling, in the arithmetic of doubles) is not above the floor, it
  returns the list accepted in the last pass, which may be short or empty and is empty
  when no pass ran; when the test holds after every number of passes, the call does not
  return. No error of an extraction reaches the caller: a footprint whose extraction
  throws leaves the list and the count of its pass as they were, the pass goes on to the
  other footprints (the accepted regions are all the detected footprints that pass the
  checks), and every returned region is one whose two sub-images could be extracted.
\<close>

theorem getCollectionOfFootprints_returns:
  "(\<forall>j. (\<forall>k<j. continuesAfter arith ext a b p k) \<and> \<not> continuesAfter arith ext a b p j
        \<longrightarrow> getCollectionOfFootprintsForPsfMatching arith ext a b p
              = Some (listAfter arith ext a b p j))
   \<and> ((\<forall>k. continuesAfter arith ext a b p k)
        \<longrightarrow> getCollectionOfFootprintsForPsfMatching arith ext a b p = None)
   \<and> (\<forall>st fp e.
         extractBoth ext a b (getBBox (growFootprint ext fp (of_int (footprintDiffimGrow p))))
           = Inl e
         \<longrightarrow> checkFootprint ext a b p st fp = st)
   \<and> (\<forall>t. detectionPass ext a b p t
            = (acceptedRegions ext a b p t, of_nat (length (acceptedRegions ext a b p t))))
   \<and> (\<forall>j fp. fp \<in> set (listAfter arith ext a b p j)
         \<longrightarrow> (\<exists>subImages. extractBoth ext a b (getBBox fp) = Inr subImages))"
proof (intro conjI allI impI)
  fix j
  assume "(\<forall>k<j. continuesAfter arith ext a b p k) \<and> \<not> continuesAfter arith ext a b p j"
  then show "getCollectionOfFootprintsForPsfMatching arith ext a b p
               = Some (listAfter arith ext a b p j)"
    by (intro getCollection_returns) simp_all
next
  assume "\<forall>k. continuesAfter arith ext a b p k"
  then show "getCollectionOfFootprintsForPsfMatching arith ext a b p = None"
    by (rule getCollection_never_returns)
next
  fix st fp e
  assume "extractBoth ext a b (getBBox (growFootprint ext fp (of_int (footprintDiffimGrow p))))
            = Inl e"
  then show "checkFootprint ext a b p st fp = st"
    by (cases st) (auto simp: checkFootprint_def Let_def)
next
  fix t
  show "detectionPass ext a b p t
          = (acceptedRegions ext a b p t, of_nat (length (acceptedRegions ext a b p t)))"
    by (rule detectionPass_eq)
next
  fix j fp
  assume "fp \<in> set (listAfter arith ext a b p j)"
  then show "\<exists>subImages. extractBoth ext a b (getBBox fp) = Inr subImages"
    by (rule listAfter_extracted)
qed

text \<open>
  Three runs with the initial threshold 1, the scaling \<open>1/2\<close>, the floor \<open>1/4\<close> and one
  region asked for. Where the detector finds one footprint from the threshold \<open>1/2\<close>
  down and its box fits, the second pass accepts it and the call returns it. Where the
  extraction of that footprint throws, no pass accepts it and the call returns the empty
  list after the second pass, the threshold being \<open>1/4\<close> then. Where the detector finds
  two footprints and the extraction of the first throws, the first pass skips it, accepts
  the second and the call returns the second.
\<close>

theorem getCollectionOfFootprints_returns_witness:
  "getCollectionOfFootprintsForPsfMatching exact_arithmetic (one_source (1 / 2) 3)
     (flat_image 8 8) (flat_image 8 8) (selection_policy 1 1 (1 / 2) (1 / 4))
     = Some [\<lparr>getNpix = 9, getBBox = (3, 3, 3, 3)\<rparr>]
   \<and> getCollectionOfFootprintsForPsfMatching exact_arithmetic (one_source (1 / 2) (- 1))
       (flat_image 8 8) (flat_image 8 8) (selection_policy 1 1 (1 / 2) (1 / 4))
     = Some []
   \<and> getCollectionOfFootprintsForPsfMatching exact_arithmetic two_sources
       (flat_image 8 8) (flat_image 8 8) (selection_policy 1 1 (1 / 2) (1 / 4))
     = Some [\<lparr>getNpix = 9, getBBox = (4, 3, 3, 3)\<rparr>]"
proof -
  let ?p = "selection_policy 1 1 (1 / 2) (1 / 4)" and ?img = "flat_image 8 8"
  let ?A = exact_arithmetic
  note defs = continuesAfter_def acceptedRegions_def isAccepted_def extractBoth_def
    one_source_def two_sources_def selection_policy_def exact_arithmetic_def Let_def
  have one: "\<forall>k<Suc (Suc 0). continuesAfter ?A (one_source (1 / 2) 3) ?img ?img ?p k"
    "\<not> continuesAfter ?A (one_source (1 / 2) 3) ?img ?img ?p (Suc (Suc 0))"
    "listAfter ?A (one_source (1 / 2) 3) ?img ?img ?p (Suc (Suc 0))
       = [\<lparr>getNpix = 9, getBBox = (3, 3, 3, 3)\<rparr>]"
    by (simp_all add: less_Suc_eq defs)
  have two: "\<forall>k<Suc (Suc 0). continuesAfter ?A (one_source (1 / 2) (- 1)) ?img ?img ?p k"
    "\<not> continuesAfter ?A (one_source (1 / 2) (- 1)) ?img ?img ?p (Suc (Suc 0))"
    "listAfter ?A (one_source (1 / 2) (- 1)) ?img ?img ?p (Suc (Suc 0)) = []"
    by (simp_all add: less_Suc_eq defs)
  have three: "\<forall>k<Suc 0. continuesAfter ?A two_sources ?img ?img ?p k"
    "\<not> continuesAfter ?A two_sources ?img ?img ?p (Suc 0)"
    "listAfter ?A two_sources ?img ?img ?p (Suc 0) = [\<lparr>getNpix = 9, getBBox = (4, 3, 3, 3)\<rparr>]"
    by (simp_all add: defs)
  have r1: "getCollectionOfFootprintsForPsfMatching ?A (one_source (1 / 2) 3) ?img ?img ?p
              = Some (listAfter ?A (one_source (1 / 2) 3) ?img ?img ?p (Suc (Suc 0)))"
    using getCollectionOfFootprints_returns [of ?A "one_source (1 / 2) 3" ?img ?img ?p] one(1,2)
    by blast
  have r2: "getCollectionOfFootprintsForPsfMatching ?A (one_source (1 / 2) (- 1)) ?img ?img ?p
              = Some (listAfter ?A (one_source (1 / 2) (- 1)) ?img ?img ?p (Suc (Suc 0)))"
    using getCollectionOfFootprints_returns [of ?A "one_source (1 / 2) (- 1)" ?img ?img ?p]
      two(1,2)
    by blast
  have r3: "getCollectionOfFootprintsForPsfMatching ?A two_sources ?img ?img ?p
              = Some (listAfter ?A two_sources ?img ?img ?p (Suc 0))"
    using getCollectionOfFootprints_returns [of ?A two_sources ?img ?img ?p] three(1,2)
    by blast
  from r1 r2 r3 show ?thesis
    unfolding one(3) two(3) three(3) by simp
qed

lemma no_source_continues:
  "continuesAfter exact_arithmetic no_source a b (selection_policy 1 1 1 0) k"
proof -
  have t: "thresholdAfter exact_arithmetic (selection_policy 1 1 1 0) j = 1" for j
    by (induction j) (simp_all add: selection_policy_def exact_arithmetic_def)
  have l: "listAfter exact_arithmetic no_source a b (selection_policy 1 1 1 0) k = []"
    by (cases k) (simp_all add: acceptedRegions_def no_source_def)
  show ?thesis
    unfolding continuesAfter_def l t
    by (simp add: selection_policy_def exact_arithmetic_def)
qed

text \<open>
  C8, as stated, at a configuration with the initial threshold 1, the scaling 1 and the
  floor 0, on images where the detector finds nothing and one clean footprint is asked
  for: the threshold is \<open>1 * 1 = 1\<close> after every pass and the count stays 0, so the test
  of the loop holds for ever and the call does not return.
\<close>

theorem getCollectionOfFootprints_counterexample:
  "getCollectionOfFootprintsForPsfMatching exact_arithmetic no_source (flat_image 8 8)
     (flat_image 8 8) (selection_policy 1 1 1 0) = None"
  by (rule getCollection_never_returns) (simp add: no_source_continues)

end
